theory Spec2Isabelle
  imports Main "HOL-Library.Char_ord" "HOL-Library.List_Lexorder"
begin

section \<open>Data model (backend Task schema, models/Task.js)\<close>

text \<open>
  A JavaScript \<^verbatim>\<open>Date\<close> with a valid time value is its number of milliseconds since the
  epoch. An \<^verbatim>\<open>ObjectId\<close> is opaque; only equality is used.
\<close>

type_synonym timestamp = int
type_synonym object_id = nat

datatype status = Pending | InProgress | Completed | Cancelled

datatype priority = Low | Medium | High | Urgent

record task =
  task_id :: object_id
  title :: string
  description :: "string option"
  status :: status
  priority :: priority
  dueDate :: "timestamp option"
  tags :: "string list"
  user :: object_id
  completedAt :: "timestamp option"
  createdAt :: timestamp
  updatedAt :: timestamp

text \<open>The enum strings of the schema and of the request validators.\<close>

fun status_str :: "status \<Rightarrow> string" where
  "status_str Pending = ''pending''"
| "status_str InProgress = ''in-progress''"
| "status_str Completed = ''completed''"
| "status_str Cancelled = ''cancelled''"

fun priority_str :: "priority \<Rightarrow> string" where
  "priority_str Low = ''low''"
| "priority_str Medium = ''medium''"
| "priority_str High = ''high''"
| "priority_str Urgent = ''urgent''"

definition status_of_str :: "string \<Rightarrow> status option" where
  "status_of_str s =
     (if s = ''pending'' then Some Pending
      else if s = ''in-progress'' then Some InProgress
      else if s = ''completed'' then Some Completed
      else if s = ''cancelled'' then Some Cancelled
      else None)"

definition priority_of_str :: "string \<Rightarrow> priority option" where
  "priority_of_str s =
     (if s = ''low'' then Some Low
      else if s = ''medium'' then Some Medium
      else if s = ''high'' then Some High
      else if s = ''urgent'' then Some Urgent
      else None)"

section \<open>Strings as the validators and helpers see them\<close>

text \<open>
  Strings are lists of characters; lengths count characters. Whitespace removed by
  \<^verbatim>\<open>trim\<close> is the ASCII whitespace.
\<close>

definition is_space :: "char \<Rightarrow> bool" where
  "is_space c = (c \<in> set [CHR '' '', CHR 0x09, CHR 0x0A, CHR 0x0B, CHR 0x0C, CHR 0x0D])"

definition trim :: "string \<Rightarrow> string" where
  "trim s = rev (dropWhile is_space (rev (dropWhile is_space s)))"

definition toLower_char :: "char \<Rightarrow> char" where
  "toLower_char c =
     (case map_of (zip ''ABCDEFGHIJKLMNOPQRSTUVWXYZ'' ''abcdefghijklmnopqrstuvwxyz'') c of
        None \<Rightarrow> c
      | Some l \<Rightarrow> l)"

definition toLowerCase :: "string \<Rightarrow> string" where
  "toLowerCase s = map toLower_char s"

text \<open>\<^verbatim>\<open>String.prototype.startsWith\<close> and \<^verbatim>\<open>String.prototype.includes\<close>.\<close>

definition startsWith :: "string \<Rightarrow> string \<Rightarrow> bool" where
  "startsWith s n = (take (length n) s = n)"

fun str_includes :: "string \<Rightarrow> string \<Rightarrow> bool" where
  "str_includes [] n = (n = [])"
| "str_includes (c # cs) n = (startsWith (c # cs) n \<or> str_includes cs n)"

text \<open>
  validator.js \<^verbatim>\<open>isInt\<close> with its default options tests the string against
  \<^verbatim>\<open>/^[-+]?[0-9]+$/\<close>: an optional sign, then one or more digits. \<open>int_of_digits\<close> is
  the value of a digit string, which is what the comparison with \<^verbatim>\<open>min\<close> and \<^verbatim>\<open>max\<close> sees.
\<close>

definition is_digit :: "char \<Rightarrow> bool" where
  "is_digit c = (c \<in> set ''0123456789'')"

definition digit_val :: "char \<Rightarrow> int" where
  "digit_val c =
     (case map_of (zip ''0123456789'' [0, 1, 2, 3, 4, 5, 6, 7, 8, 9]) c of
        None \<Rightarrow> 0
      | Some d \<Rightarrow> d)"

definition int_of_digits :: "string \<Rightarrow> int" where
  "int_of_digits ds = foldl (\<lambda>acc c. 10 * acc + digit_val c) 0 ds"

definition strip_sign :: "string \<Rightarrow> bool \<times> string" where
  "strip_sign s =
     (case s of
        [] \<Rightarrow> (False, [])
      | c # cs \<Rightarrow>
          if c = CHR ''-'' then (True, cs)
          else if c = CHR ''+'' then (False, cs)
          else (False, s))"

definition int_syntax :: "string \<Rightarrow> bool" where
  "int_syntax s =
     (let ds = snd (strip_sign s)
      in ds \<noteq> [] \<and> list_all is_digit ds)"

definition signed_value :: "string \<Rightarrow> int" where
  "signed_value s =
     (let (neg, ds) = strip_sign s
      in if neg then - int_of_digits ds else int_of_digits ds)"

text \<open>\<^verbatim>\<open>isInt({ min, max })\<close>: the syntax check, then the numeric bounds that are given.\<close>

definition isInt :: "int option \<Rightarrow> int option \<Rightarrow> string \<Rightarrow> bool" where
  "isInt lo hi s =
     (int_syntax s
      \<and> (case lo of None \<Rightarrow> True | Some l \<Rightarrow> l \<le> signed_value s)
      \<and> (case hi of None \<Rightarrow> True | Some h \<Rightarrow> signed_value s \<le> h))"

text \<open>
  \<^verbatim>\<open>parseInt(s, 10)\<close>: leading whitespace is skipped, an optional sign is read, then the
  longest run of digits; no digit gives \<^verbatim>\<open>NaN\<close>, here \<open>None\<close>.
\<close>

definition parseInt :: "string \<Rightarrow> int option" where
  "parseInt s =
     (let (neg, r) = strip_sign (dropWhile is_space s);
          ds = takeWhile is_digit r
      in if ds = [] then None
         else Some (if neg then - int_of_digits ds else int_of_digits ds))"

section \<open>The JavaScript and database runtime the handlers call\<close>

text \<open>
  Three library functions are taken as parameters: validator.js \<^verbatim>\<open>isISO8601\<close>, the
  \<^verbatim>\<open>Date\<close> constructor on a string (\<open>None\<close> is \<^verbatim>\<open>Invalid Date\<close>), and the compilation
  of a pattern into a case-insensitive regular expression (\<open>None\<close>: the pattern is not a
  regular expression; \<open>Some m\<close>: \<open>m text\<close> holds when the expression matches somewhere
  in \<open>text\<close>).
\<close>

record runtime =
  isISO8601 :: "string \<Rightarrow> bool"
  newDate :: "string \<Rightarrow> timestamp option"
  regExp_i :: "string \<Rightarrow> (string \<Rightarrow> bool) option"

section \<open>Task lifecycle: schema validator and pre-save hook\<close>

text \<open>
  Schema validator of \<^verbatim>\<open>dueDate\<close>: \<^verbatim>\<open>!value || value > new Date()\<close>. A \<^verbatim>\<open>Date\<close> object is
  always truthy, so only \<^verbatim>\<open>null\<close>/\<^verbatim>\<open>undefined\<close> take the first disjunct.
\<close>

definition dueDate_validator :: "timestamp \<Rightarrow> timestamp option \<Rightarrow> bool" where
  "dueDate_validator now v = (case v of None \<Rightarrow> True | Some d \<Rightarrow> now < d)"

text \<open>
  The other schema validators: \<^verbatim>\<open>title\<close> required with at most 100 characters,
  \<^verbatim>\<open>description\<close> at most 500, each tag at most 20. Each returns the messages of the
  failed validators.
\<close>

definition schema_title :: "string \<Rightarrow> string list" where
  "schema_title s =
     (if s = [] then [''Task title is required'']
      else if 100 < length s then [''Title cannot be more than 100 characters'']
      else [])"

definition schema_description :: "string \<Rightarrow> string list" where
  "schema_description s =
     (if 500 < length s then [''Description cannot be more than 500 characters''] else [])"

definition schema_tags :: "string list \<Rightarrow> string list" where
  "schema_tags ts =
     concat (map (\<lambda>t. if 20 < length t then [''Tag cannot be more than 20 characters'']
                       else []) ts)"

definition schema_dueDate :: "timestamp \<Rightarrow> timestamp option \<Rightarrow> string list" where
  "schema_dueDate now v =
     (if dueDate_validator now v then [] else [''Due date must be in the future''])"

text \<open>
  \<^verbatim>\<open>taskSchema.pre('save')\<close>. \<open>status_modified\<close> is \<^verbatim>\<open>this.isModified('status')\<close>,
  \<open>now\<close> the value of \<^verbatim>\<open>new Date()\<close> inside the hook.
\<close>

definition pre_save :: "bool \<Rightarrow> timestamp \<Rightarrow> task \<Rightarrow> task" where
  "pre_save status_modified now t =
     (if status_modified then
        (if status t = Completed \<and> completedAt t = None then t\<lparr>completedAt := Some now\<rparr>
         else if status t \<noteq> Completed then t\<lparr>completedAt := None\<rparr>
         else t)
      else t)"

section \<open>Requests and responses\<close>

text \<open>
  A validation error of express-validator is a field and a message; the errors of the
  wildcard chain \<^verbatim>\<open>tags.*\<close> name the element by its index.
\<close>

datatype field = Field string | TagsAt nat

type_synonym field_error = "field \<times> string"

text \<open>
  The JSON body of a create or update request. A field that is absent is \<open>None\<close>;
  \<^verbatim>\<open>dueDate\<close> may also be an explicit \<^verbatim>\<open>null\<close>.
\<close>

datatype due_value = DueNull | DueString string

record task_body =
  b_title :: "string option"
  b_description :: "string option"
  b_status :: "string option"
  b_priority :: "string option"
  b_dueDate :: "due_value option"
  b_tags :: "string list option"

text \<open>The raw query string of the list request.\<close>

record list_query =
  q_page :: "string option"
  q_limit :: "string option"
  q_status :: "string option"
  q_priority :: "string option"
  q_search :: "string option"
  q_tag :: "string option"
  q_dueBefore :: "string option"
  q_dueAfter :: "string option"
  q_sortBy :: "string option"
  q_sortOrder :: "string option"

record list_result =
  lr_count :: nat
  lr_total :: nat
  lr_next :: "(int \<times> int) option"
  lr_prev :: "(int \<times> int) option"
  lr_data :: "task list"

record task_stats =
  st_total :: nat
  st_pending :: nat
  st_in_progress :: nat
  st_completed :: nat
  st_cancelled :: nat
  st_overdue :: nat
  st_dueToday :: nat

text \<open>
  An exception that leaves a handler goes through \<^verbatim>\<open>asyncHandler\<close> to the error
  middleware, which is outside these files; the model records which exception it is.
\<close>

datatype thrown =
    MongooseValidationError "string list"
  | MongooseCastError
  | RegExpSyntaxError

datatype response =
    ValidationFailed "field_error list"
  | NotFound
  | TaskData task
  | TaskCreated task
  | TaskUpdated "task option"
  | TaskDeleted
  | TaskList list_result
  | Stats task_stats
  | Thrown thrown

section \<open>Request validators of the create and update routes\<close>

text \<open>express-validator turns \<^verbatim>\<open>undefined\<close> and \<^verbatim>\<open>null\<close> into the empty string.\<close>

definition opt_text :: "string option \<Rightarrow> string" where
  "opt_text v = (case v of None \<Rightarrow> [] | Some s \<Rightarrow> s)"

definition due_text :: "due_value \<Rightarrow> string" where
  "due_text v = (case v of DueNull \<Rightarrow> [] | DueString s \<Rightarrow> s)"

definition check_description :: "string option \<Rightarrow> field_error list" where
  "check_description v =
     (case v of
        None \<Rightarrow> []
      | Some s \<Rightarrow>
          if length (trim s) \<le> 500 then []
          else [(Field ''description'', ''Description must be less than 500 characters'')])"

definition check_status :: "string option \<Rightarrow> field_error list" where
  "check_status v =
     (case v of
        None \<Rightarrow> []
      | Some s \<Rightarrow>
          if s \<in> set [''pending'', ''in-progress'', ''completed'', ''cancelled''] then []
          else [(Field ''status'', ''Invalid status'')])"

definition check_priority :: "string option \<Rightarrow> field_error list" where
  "check_priority v =
     (case v of
        None \<Rightarrow> []
      | Some s \<Rightarrow>
          if s \<in> set [''low'', ''medium'', ''high'', ''urgent''] then []
          else [(Field ''priority'', ''Invalid priority'')])"

definition check_tag :: "nat \<times> string \<Rightarrow> field_error list" where
  "check_tag it =
     (if 1 \<le> length (trim (snd it)) \<and> length (trim (snd it)) \<le> 20 then []
      else [(TagsAt (fst it), ''Each tag must be between 1 and 20 characters'')])"

definition check_tags :: "string list option \<Rightarrow> field_error list" where
  "check_tags v =
     (case v of
        None \<Rightarrow> []
      | Some ts \<Rightarrow> concat (map check_tag (zip [0..<length ts] ts)))"

definition validate_create :: "runtime \<Rightarrow> task_body \<Rightarrow> field_error list" where
  "validate_create rt b =
     (if 1 \<le> length (trim (opt_text (b_title b))) \<and> length (trim (opt_text (b_title b))) \<le> 100
      then []
      else [(Field ''title'', ''Title is required and must be less than 100 characters'')])
     @ check_description (b_description b)
     @ check_status (b_status b)
     @ check_priority (b_priority b)
     @ (case b_dueDate b of
          None \<Rightarrow> []
        | Some v \<Rightarrow>
            if isISO8601 rt (due_text v) then []
            else [(Field ''dueDate'', ''Due date must be a valid date'')])
     @ check_tags (b_tags b)"

text \<open>
  The custom validator of \<^verbatim>\<open>dueDate\<close> on update:
  \<^verbatim>\<open>if (value === null || value === '') return true;
  return new Date(value).toString() !== 'Invalid Date';\<close>
\<close>

definition update_dueDate_custom :: "runtime \<Rightarrow> due_value \<Rightarrow> bool" where
  "update_dueDate_custom rt v =
     (case v of
        DueNull \<Rightarrow> True
      | DueString s \<Rightarrow> if s = [] then True else newDate rt s \<noteq> None)"

definition validate_update :: "runtime \<Rightarrow> task_body \<Rightarrow> field_error list" where
  "validate_update rt b =
     (case b_title b of
        None \<Rightarrow> []
      | Some s \<Rightarrow>
          if 1 \<le> length (trim s) \<and> length (trim s) \<le> 100 then []
          else [(Field ''title'', ''Title must be between 1 and 100 characters'')])
     @ check_description (b_description b)
     @ check_status (b_status b)
     @ check_priority (b_priority b)
     @ (case b_dueDate b of
          None \<Rightarrow> []
        | Some v \<Rightarrow>
            if update_dueDate_custom rt v then []
            else [(Field ''dueDate'', ''Due date must be a valid date or null'')])
     @ check_tags (b_tags b)"

text \<open>
  The \<^verbatim>\<open>trim()\<close> sanitizers write the trimmed values back into the request body, which
  the handler reads after validation.
\<close>

definition sanitize :: "task_body \<Rightarrow> task_body" where
  "sanitize b =
     b\<lparr> b_title := map_option trim (b_title b),
        b_description := map_option trim (b_description b),
        b_tags := map_option (map trim) (b_tags b) \<rparr>"

section \<open>The task collection and the single-task routes\<close>

text \<open>
  The collection is the list of its documents in insertion order. \<^verbatim>\<open>findOne\<close> with
  \<^verbatim>\<open>{ _id, user }\<close> returns the first document that has both.
\<close>

definition findOne :: "task list \<Rightarrow> object_id \<Rightarrow> object_id \<Rightarrow> task option" where
  "findOne store tid uid = find (\<lambda>t. task_id t = tid \<and> user t = uid) store"

definition findById :: "task list \<Rightarrow> object_id \<Rightarrow> task option" where
  "findById store tid = find (\<lambda>t. task_id t = tid) store"

text \<open>\<^verbatim>\<open>GET /api/tasks/:id\<close>.\<close>

definition get_task :: "task list \<Rightarrow> object_id \<Rightarrow> object_id \<Rightarrow> response" where
  "get_task store uid tid =
     (case findOne store tid uid of
        None \<Rightarrow> NotFound
      | Some t \<Rightarrow> TaskData t)"

text \<open>
  \<^verbatim>\<open>POST /api/tasks\<close>. The handler passes \<^verbatim>\<open>dueDate ? new Date(dueDate) : undefined\<close>;
  an \<^verbatim>\<open>Invalid Date\<close> cannot be cast by the schema.
\<close>

definition due_truthy :: "due_value \<Rightarrow> bool" where
  "due_truthy v = (case v of DueNull \<Rightarrow> False | DueString s \<Rightarrow> s \<noteq> [])"

definition create_dueDate :: "runtime \<Rightarrow> due_value option \<Rightarrow> timestamp option option" where
  "create_dueDate rt v =
     (case v of
        None \<Rightarrow> Some None
      | Some d \<Rightarrow> if due_truthy d then map_option Some (newDate rt (due_text d)) else Some None)"

definition cast_status :: "string option \<Rightarrow> status option" where
  "cast_status v = (case v of None \<Rightarrow> Some Pending | Some s \<Rightarrow> status_of_str s)"

definition cast_priority :: "string option \<Rightarrow> priority option" where
  "cast_priority v = (case v of None \<Rightarrow> Some Medium | Some s \<Rightarrow> priority_of_str s)"

text \<open>
  \<^verbatim>\<open>Task.create\<close>: the schema defaults (\<^verbatim>\<open>status\<close> pending, \<^verbatim>\<open>priority\<close> medium, no
  tags), then \<^verbatim>\<open>save\<close>: the schema validators, the pre-save hook, the timestamps. The
  three readings of the clock are separate arguments: \<open>now_v\<close> in the due-date validator,
  \<open>now_h\<close> in the hook, \<open>now_t\<close> for \<^verbatim>\<open>createdAt\<close>/\<^verbatim>\<open>updatedAt\<close>. A status set through
  its default is not a modified path; one given in the body is. \<open>new_id\<close> is the
  generated \<^verbatim>\<open>_id\<close>.
\<close>

definition model_create ::
  "timestamp \<Rightarrow> timestamp \<Rightarrow> timestamp \<Rightarrow> object_id \<Rightarrow> object_id \<Rightarrow> task_body \<Rightarrow>
   timestamp option \<Rightarrow> thrown + task" where
  "model_create now_v now_h now_t new_id uid b due =
     (case (cast_status (b_status b), cast_priority (b_priority b)) of
        (Some st, Some pr) \<Rightarrow>
          (let doc = \<lparr> task_id = new_id, title = opt_text (b_title b),
                       description = b_description b, status = st, priority = pr,
                       dueDate = due,
                       tags = (case b_tags b of None \<Rightarrow> [] | Some ts \<Rightarrow> ts),
                       user = uid, completedAt = None,
                       createdAt = now_t, updatedAt = now_t \<rparr>;
               msgs = schema_title (title doc)
                      @ schema_description (opt_text (description doc))
                      @ schema_dueDate now_v (dueDate doc)
                      @ schema_tags (tags doc)
           in if msgs \<noteq> [] then Inl (MongooseValidationError msgs)
              else Inr (pre_save (b_status b \<noteq> None) now_h doc))
      | _ \<Rightarrow> Inl (MongooseValidationError [''not a valid enum value'']))"

definition create_task ::
  "runtime \<Rightarrow> timestamp \<Rightarrow> timestamp \<Rightarrow> timestamp \<Rightarrow> object_id \<Rightarrow>
   task list \<Rightarrow> object_id \<Rightarrow> task_body \<Rightarrow> response \<times> task list" where
  "create_task rt now_v now_h now_t new_id store uid body =
     (let errors = validate_create rt body
      in if errors \<noteq> [] then (ValidationFailed errors, store)
         else
           (let b = sanitize body
            in case create_dueDate rt (b_dueDate b) of
                 None \<Rightarrow> (Thrown MongooseCastError, store)
               | Some due \<Rightarrow>
                   (case model_create now_v now_h now_t new_id uid b due of
                      Inl e \<Rightarrow> (Thrown e, store)
                    | Inr t \<Rightarrow> (TaskCreated t, store @ [t]))))"

text \<open>
  \<^verbatim>\<open>PUT /api/tasks/:id\<close>. \<open>updateData\<close> holds exactly the fields of the body that are not
  \<^verbatim>\<open>undefined\<close>; \<^verbatim>\<open>dueDate\<close> becomes \<^verbatim>\<open>dueDate ? new Date(dueDate) : null\<close>.
\<close>

record update_data =
  u_title :: "string option"
  u_description :: "string option"
  u_status :: "status option"
  u_priority :: "priority option"
  u_dueDate :: "timestamp option option"
  u_tags :: "string list option"

definition update_dueDate :: "runtime \<Rightarrow> due_value option \<Rightarrow> timestamp option option option" where
  "update_dueDate rt v =
     (case v of
        None \<Rightarrow> Some None
      | Some d \<Rightarrow>
          if due_truthy d then map_option (\<lambda>x. Some (Some x)) (newDate rt (due_text d))
          else Some (Some None))"

definition cast_enum :: "(string \<Rightarrow> 'a option) \<Rightarrow> string option \<Rightarrow> 'a option option" where
  "cast_enum of_str v =
     (case v of None \<Rightarrow> Some None | Some s \<Rightarrow> map_option Some (of_str s))"

definition build_updateData :: "runtime \<Rightarrow> task_body \<Rightarrow> update_data option" where
  "build_updateData rt b =
     (case (cast_enum status_of_str (b_status b), cast_enum priority_of_str (b_priority b),
            update_dueDate rt (b_dueDate b)) of
        (Some st, Some pr, Some due) \<Rightarrow>
          Some \<lparr> u_title = b_title b, u_description = b_description b, u_status = st,
                 u_priority = pr, u_dueDate = due, u_tags = b_tags b \<rparr>
      | _ \<Rightarrow> None)"

text \<open>
  \<^verbatim>\<open>findByIdAndUpdate(id, updateData, { new: true, runValidators: true })\<close> is a
  \<^verbatim>\<open>findOneAndUpdate\<close> query. With \<^verbatim>\<open>runValidators\<close> the schema validators of the paths
  being set run on the new values, and a failure throws before anything is written.
  The query sets the given paths and, through \<^verbatim>\<open>timestamps\<close>, \<^verbatim>\<open>updatedAt\<close>. It does not
  load a document and does not call \<^verbatim>\<open>save\<close>, so \<^verbatim>\<open>pre('save')\<close> hooks do not run.
\<close>

definition update_validators :: "timestamp \<Rightarrow> update_data \<Rightarrow> string list" where
  "update_validators now u =
     (case u_title u of None \<Rightarrow> [] | Some s \<Rightarrow> schema_title s)
     @ (case u_description u of None \<Rightarrow> [] | Some s \<Rightarrow> schema_description s)
     @ (case u_dueDate u of None \<Rightarrow> [] | Some d \<Rightarrow> schema_dueDate now d)
     @ (case u_tags u of None \<Rightarrow> [] | Some ts \<Rightarrow> schema_tags ts)"

definition apply_update :: "timestamp \<Rightarrow> update_data \<Rightarrow> task \<Rightarrow> task" where
  "apply_update now u t =
     t\<lparr> title := (case u_title u of None \<Rightarrow> title t | Some x \<Rightarrow> x),
        description := (case u_description u of None \<Rightarrow> description t | Some x \<Rightarrow> Some x),
        status := (case u_status u of None \<Rightarrow> status t | Some x \<Rightarrow> x),
        priority := (case u_priority u of None \<Rightarrow> priority t | Some x \<Rightarrow> x),
        dueDate := (case u_dueDate u of None \<Rightarrow> dueDate t | Some x \<Rightarrow> x),
        tags := (case u_tags u of None \<Rightarrow> tags t | Some x \<Rightarrow> x),
        updatedAt := now \<rparr>"

fun update_first :: "('a \<Rightarrow> bool) \<Rightarrow> ('a \<Rightarrow> 'a) \<Rightarrow> 'a list \<Rightarrow> 'a list" where
  "update_first P f [] = []"
| "update_first P f (x # xs) = (if P x then f x # xs else x # update_first P f xs)"

definition findByIdAndUpdate ::
  "timestamp \<Rightarrow> timestamp \<Rightarrow> task list \<Rightarrow> object_id \<Rightarrow> update_data \<Rightarrow>
   thrown + (task option \<times> task list)" where
  "findByIdAndUpdate now_v now_t store tid u =
     (let msgs = update_validators now_v u
      in if msgs \<noteq> [] then Inl (MongooseValidationError msgs)
         else
           (let store' = update_first (\<lambda>t. task_id t = tid) (apply_update now_t u) store
            in Inr (findById store' tid, store')))"

definition update_task ::
  "runtime \<Rightarrow> timestamp \<Rightarrow> timestamp \<Rightarrow> task list \<Rightarrow> object_id \<Rightarrow> object_id \<Rightarrow>
   task_body \<Rightarrow> response \<times> task list" where
  "update_task rt now_v now_t store uid tid body =
     (let errors = validate_update rt body
      in if errors \<noteq> [] then (ValidationFailed errors, store)
         else
           (case findOne store tid uid of
              None \<Rightarrow> (NotFound, store)
            | Some found \<Rightarrow>
                (case build_updateData rt (sanitize body) of
                   None \<Rightarrow> (Thrown MongooseCastError, store)
                 | Some u \<Rightarrow>
                     (case findByIdAndUpdate now_v now_t store tid u of
                        Inl e \<Rightarrow> (Thrown e, store)
                      | Inr (t, store') \<Rightarrow> (TaskUpdated t, store')))))"

text \<open>
  An update was accepted when the response carries the stored task, and that task has the
  given due date.
\<close>

definition accepted :: "response \<times> task list \<Rightarrow> object_id \<Rightarrow> timestamp option \<Rightarrow> bool" where
  "accepted res tid due =
     (case fst res of
        TaskUpdated (Some t') \<Rightarrow> findById (snd res) tid = Some t' \<and> dueDate t' = due
      | _ \<Rightarrow> False)"

text \<open>\<^verbatim>\<open>DELETE /api/tasks/:id\<close>.\<close>

fun delete_first :: "('a \<Rightarrow> bool) \<Rightarrow> 'a list \<Rightarrow> 'a list" where
  "delete_first P [] = []"
| "delete_first P (x # xs) = (if P x then xs else x # delete_first P xs)"

definition findByIdAndDelete :: "task list \<Rightarrow> object_id \<Rightarrow> task list" where
  "findByIdAndDelete store tid = delete_first (\<lambda>t. task_id t = tid) store"

definition delete_task :: "task list \<Rightarrow> object_id \<Rightarrow> object_id \<Rightarrow> response \<times> task list" where
  "delete_task store uid tid =
     (case findOne store tid uid of
        None \<Rightarrow> (NotFound, store)
      | Some found \<Rightarrow> (TaskDeleted, findByIdAndDelete store tid))"

section \<open>The list route\<close>

text \<open>
  The validators of \<^verbatim>\<open>GET /api/tasks\<close>, in the order of the chain: \<^verbatim>\<open>page\<close>, \<^verbatim>\<open>limit\<close>,
  \<^verbatim>\<open>status\<close>, \<^verbatim>\<open>priority\<close>, \<^verbatim>\<open>sortBy\<close>, \<^verbatim>\<open>sortOrder\<close>. No chain names \<^verbatim>\<open>search\<close>,
  \<^verbatim>\<open>tag\<close>, \<^verbatim>\<open>dueBefore\<close> or \<^verbatim>\<open>dueAfter\<close>.
\<close>

definition check_isIn :: "string list \<Rightarrow> string \<Rightarrow> string \<Rightarrow> string option \<Rightarrow> field_error list" where
  "check_isIn allowed name msg v =
     (case v of
        None \<Rightarrow> []
      | Some s \<Rightarrow> if s \<in> set allowed then [] else [(Field name, msg)])"

definition check_isInt :: "int option \<Rightarrow> int option \<Rightarrow> string \<Rightarrow> string \<Rightarrow> string option \<Rightarrow> field_error list" where
  "check_isInt lo hi name msg v =
     (case v of
        None \<Rightarrow> []
      | Some s \<Rightarrow> if isInt lo hi s then [] else [(Field name, msg)])"

definition validate_list :: "list_query \<Rightarrow> field_error list" where
  "validate_list q =
     check_isInt (Some 1) None ''page'' ''Page must be a positive integer'' (q_page q)
     @ check_isInt (Some 1) (Some 100) ''limit'' ''Limit must be between 1 and 100'' (q_limit q)
     @ check_status (q_status q)
     @ check_priority (q_priority q)
     @ check_isIn [''createdAt'', ''updatedAt'', ''dueDate'', ''title'', ''priority'']
         ''sortBy'' ''Invalid sort field'' (q_sortBy q)
     @ check_isIn [''asc'', ''desc''] ''sortOrder'' ''Sort order must be asc or desc''
         (q_sortOrder q)"

text \<open>
  \<^verbatim>\<open>parseInt(x, 10) || d\<close>: \<^verbatim>\<open>NaN\<close> and 0 are falsy. \<^verbatim>\<open>if (req.query.x)\<close>: an absent and
  an empty parameter are falsy.
\<close>

definition parseInt_or :: "string option \<Rightarrow> int \<Rightarrow> int" where
  "parseInt_or v d =
     (case v of
        None \<Rightarrow> d
      | Some s \<Rightarrow> (case parseInt s of None \<Rightarrow> d | Some n \<Rightarrow> if n = 0 then d else n))"

definition truthy :: "string option \<Rightarrow> string option" where
  "truthy v = (case v of None \<Rightarrow> None | Some s \<Rightarrow> if s = [] then None else Some s)"

text \<open>
  What the handler computes from the query string before it touches the collection.
  A date parameter is passed to \<^verbatim>\<open>new Date\<close>; \<open>Some None\<close> is an \<^verbatim>\<open>Invalid Date\<close>.
  \<open>d_ascending\<close> is \<^verbatim>\<open>req.query.sortOrder === 'asc'\<close>.
\<close>

record descriptor =
  d_page :: int
  d_limit :: int
  d_status :: "string option"
  d_priority :: "string option"
  d_search :: "string option"
  d_tag :: "string option"
  d_dueBefore :: "timestamp option option"
  d_dueAfter :: "timestamp option option"
  d_sortBy :: string
  d_ascending :: bool

definition descriptor_of :: "runtime \<Rightarrow> list_query \<Rightarrow> descriptor" where
  "descriptor_of rt q =
     \<lparr> d_page = parseInt_or (q_page q) 1,
       d_limit = parseInt_or (q_limit q) 10,
       d_status = truthy (q_status q),
       d_priority = truthy (q_priority q),
       d_search = truthy (q_search q),
       d_tag = truthy (q_tag q),
       d_dueBefore = map_option (newDate rt) (truthy (q_dueBefore q)),
       d_dueAfter = map_option (newDate rt) (truthy (q_dueAfter q)),
       d_sortBy = (case truthy (q_sortBy q) of None \<Rightarrow> ''createdAt'' | Some s \<Rightarrow> s),
       d_ascending = (q_sortOrder q = Some ''asc'') \<rparr>"

definition parse_list_query :: "runtime \<Rightarrow> list_query \<Rightarrow> field_error list + descriptor" where
  "parse_list_query rt q =
     (let errors = validate_list q
      in if errors \<noteq> [] then Inl errors else Inr (descriptor_of rt q))"

text \<open>
  The MongoDB filter. \<open>f_or\<close> is the compiled search expression of the \<^verbatim>\<open>$or\<close> group,
  \<open>f_tags\<close> the \<^verbatim>\<open>$in\<close> of one string, \<open>f_lte\<close>/\<open>f_gte\<close> the bounds on \<^verbatim>\<open>dueDate\<close>.
  \<^verbatim>\<open>new RegExp\<close> throws on a pattern that does not compile; an \<^verbatim>\<open>Invalid Date\<close> cannot
  be cast when the query runs.
\<close>

record task_filter =
  f_user :: object_id
  f_status :: "string option"
  f_priority :: "string option"
  f_or :: "(string \<Rightarrow> bool) option"
  f_tags :: "string option"
  f_lte :: "timestamp option"
  f_gte :: "timestamp option"

definition build_filter :: "runtime \<Rightarrow> object_id \<Rightarrow> descriptor \<Rightarrow> thrown + task_filter" where
  "build_filter rt uid d =
     (case (case d_search d of None \<Rightarrow> Some None
                             | Some s \<Rightarrow> map_option Some (regExp_i rt s)) of
        None \<Rightarrow> Inl RegExpSyntaxError
      | Some m \<Rightarrow>
          (case (case d_dueBefore d of None \<Rightarrow> Some None | Some x \<Rightarrow> map_option Some x,
                 case d_dueAfter d of None \<Rightarrow> Some None | Some x \<Rightarrow> map_option Some x) of
             (Some lte, Some gte) \<Rightarrow>
               Inr \<lparr> f_user = uid, f_status = d_status d, f_priority = d_priority d,
                     f_or = m, f_tags = d_tag d, f_lte = lte, f_gte = gte \<rparr>
           | _ \<Rightarrow> Inl MongooseCastError))"

text \<open>
  When a document matches the filter. A comparison on \<^verbatim>\<open>dueDate\<close> matches only a document
  that has a date there.
\<close>

definition matches :: "task_filter \<Rightarrow> task \<Rightarrow> bool" where
  "matches f t =
     (user t = f_user f
      \<and> (case f_status f of None \<Rightarrow> True | Some s \<Rightarrow> status_str (status t) = s)
      \<and> (case f_priority f of None \<Rightarrow> True | Some s \<Rightarrow> priority_str (priority t) = s)
      \<and> (case f_or f of
            None \<Rightarrow> True
          | Some m \<Rightarrow>
              m (title t)
              \<or> (case description t of None \<Rightarrow> False | Some x \<Rightarrow> m x)
              \<or> list_ex m (tags t))
      \<and> (case f_tags f of None \<Rightarrow> True | Some g \<Rightarrow> g \<in> set (tags t))
      \<and> (case f_lte f of
            None \<Rightarrow> True
          | Some b \<Rightarrow> (case dueDate t of None \<Rightarrow> False | Some x \<Rightarrow> x \<le> b))
      \<and> (case f_gte f of
            None \<Rightarrow> True
          | Some a \<Rightarrow> (case dueDate t of None \<Rightarrow> False | Some x \<Rightarrow> a \<le> x)))"

text \<open>
  \<^verbatim>\<open>.sort({ [sortBy]: sortOrder })\<close>. Dates compare by time with a missing date first,
  strings by their characters (so priorities in the order of their names). Documents
  with equal keys stay in insertion order.
\<close>

definition sort_le :: "string \<Rightarrow> task \<Rightarrow> task \<Rightarrow> bool" where
  "sort_le key a b =
     (if key = ''createdAt'' then createdAt a \<le> createdAt b
      else if key = ''updatedAt'' then updatedAt a \<le> updatedAt b
      else if key = ''dueDate'' then
        (case dueDate a of
           None \<Rightarrow> True
         | Some x \<Rightarrow> (case dueDate b of None \<Rightarrow> False | Some y \<Rightarrow> x \<le> y))
      else if key = ''title'' then title a \<le> title b
      else if key = ''priority'' then priority_str (priority a) \<le> priority_str (priority b)
      else True)"

fun insert_by :: "('a \<Rightarrow> 'a \<Rightarrow> bool) \<Rightarrow> 'a \<Rightarrow> 'a list \<Rightarrow> 'a list" where
  "insert_by le x [] = [x]"
| "insert_by le x (y # ys) = (if le x y then x # y # ys else y # insert_by le x ys)"

definition sort_by :: "('a \<Rightarrow> 'a \<Rightarrow> bool) \<Rightarrow> 'a list \<Rightarrow> 'a list" where
  "sort_by le xs = foldr (insert_by le) xs []"

definition mongo_sort :: "string \<Rightarrow> bool \<Rightarrow> task list \<Rightarrow> task list" where
  "mongo_sort key ascending xs =
     sort_by (if ascending then sort_le key else (\<lambda>a b. sort_le key b a)) xs"

text \<open>
  The handler: \<^verbatim>\<open>countDocuments(query)\<close>, then
  \<^verbatim>\<open>find(query).sort(sort).limit(limit).skip(startIndex)\<close>, where the skip applies before
  the limit whatever the order of the calls, then the pagination links.
\<close>

definition run_query :: "descriptor \<Rightarrow> task_filter \<Rightarrow> task list \<Rightarrow> list_result" where
  "run_query d f store =
     (let page = d_page d; limit = d_limit d; startIndex = (page - 1) * limit;
          total = length (filter (matches f) store);
          tasks = take (nat limit) (drop (nat startIndex)
                    (mongo_sort (d_sortBy d) (d_ascending d) (filter (matches f) store)))
      in \<lparr> lr_count = length tasks,
           lr_total = total,
           lr_next = (if startIndex + limit < int total then Some (page + 1, limit) else None),
           lr_prev = (if 0 < startIndex then Some (page - 1, limit) else None),
           lr_data = tasks \<rparr>)"

definition list_tasks :: "runtime \<Rightarrow> task list \<Rightarrow> object_id \<Rightarrow> list_query \<Rightarrow> response" where
  "list_tasks rt store uid q =
     (case parse_list_query rt q of
        Inl errors \<Rightarrow> ValidationFailed errors
      | Inr d \<Rightarrow>
          (case build_filter rt uid d of
             Inl e \<Rightarrow> Thrown e
           | Inr f \<Rightarrow> TaskList (run_query d f store)))"


section \<open>Statistics\<close>

text \<open>
  \<^verbatim>\<open>getUserStats\<close>: the aggregation groups the user's tasks by status and counts each
  group (one row per status that occurs); the loop then writes each count into the
  result and adds it to \<^verbatim>\<open>total\<close>.
\<close>

definition count_status :: "status \<Rightarrow> task list \<Rightarrow> nat" where
  "count_status s ts = length (filter (\<lambda>t. status t = s) ts)"

definition aggregate_status :: "task list \<Rightarrow> object_id \<Rightarrow> (status \<times> nat) list" where
  "aggregate_status store uid =
     (let mine = filter (\<lambda>t. user t = uid) store
      in map (\<lambda>s. (s, count_status s mine)) (remdups (map status mine)))"

definition set_bucket :: "status \<Rightarrow> nat \<Rightarrow> task_stats \<Rightarrow> task_stats" where
  "set_bucket s c r =
     (case s of
        Pending \<Rightarrow> r\<lparr>st_pending := c\<rparr>
      | InProgress \<Rightarrow> r\<lparr>st_in_progress := c\<rparr>
      | Completed \<Rightarrow> r\<lparr>st_completed := c\<rparr>
      | Cancelled \<Rightarrow> r\<lparr>st_cancelled := c\<rparr>)"

definition add_stat :: "status \<times> nat \<Rightarrow> task_stats \<Rightarrow> task_stats" where
  "add_stat stat r = (set_bucket (fst stat) (snd stat) r)\<lparr>st_total := st_total r + snd stat\<rparr>"

definition empty_stats :: task_stats where
  "empty_stats =
     \<lparr> st_total = 0, st_pending = 0, st_in_progress = 0, st_completed = 0,
       st_cancelled = 0, st_overdue = 0, st_dueToday = 0 \<rparr>"

definition getUserStats :: "task list \<Rightarrow> object_id \<Rightarrow> task_stats" where
  "getUserStats store uid = fold add_stat (aggregate_status store uid) empty_stats"

text \<open>
  \<^verbatim>\<open>GET /api/tasks/stats/overview\<close>. The handler evaluates \<^verbatim>\<open>new Date()\<close> twice: \<open>now1\<close>
  inside the overdue query and \<open>now2\<close> for \<^verbatim>\<open>today\<close>, after that query has been awaited.
  \<^verbatim>\<open>tomorrow\<close> is a copy of \<^verbatim>\<open>today\<close> moved one day on; both are then set to local
  midnight. Local time is taken at a fixed offset \<open>tz\<close> (milliseconds east of UTC).
\<close>

definition day_ms :: int where
  "day_ms = 86400000"

definition setHours0 :: "int \<Rightarrow> timestamp \<Rightarrow> timestamp" where
  "setHours0 tz t = t - (t + tz) mod day_ms"

definition open_task :: "task \<Rightarrow> bool" where
  "open_task t = (status t \<notin> set [Completed, Cancelled])"

definition overdue_match :: "timestamp \<Rightarrow> object_id \<Rightarrow> task \<Rightarrow> bool" where
  "overdue_match now uid t =
     (user t = uid
      \<and> (case dueDate t of None \<Rightarrow> False | Some x \<Rightarrow> x < now)
      \<and> open_task t)"

definition dueToday_match :: "int \<Rightarrow> timestamp \<Rightarrow> object_id \<Rightarrow> task \<Rightarrow> bool" where
  "dueToday_match tz today uid t =
     (let tomorrow = today + day_ms
      in user t = uid
         \<and> (case dueDate t of
               None \<Rightarrow> False
             | Some x \<Rightarrow> setHours0 tz today \<le> x \<and> x < setHours0 tz tomorrow)
         \<and> open_task t)"

definition stats_overview :: "int \<Rightarrow> timestamp \<Rightarrow> timestamp \<Rightarrow> task list \<Rightarrow> object_id \<Rightarrow> task_stats" where
  "stats_overview tz now1 now2 store uid =
     (let stats = getUserStats store uid;
          overdueCount = length (filter (overdue_match now1 uid) store);
          dueTodayCount = length (filter (dueToday_match tz now2 uid) store)
      in stats\<lparr>st_overdue := overdueCount, st_dueToday := dueTodayCount\<rparr>)"

section \<open>Client helper filterTasks\<close>

text \<open>
  The client receives the tasks as JSON, with dates as ISO strings; \<^verbatim>\<open>new Date\<close> of such
  a string is the stored time, so the client's task is the same record. The filters are
  the typed \<^verbatim>\<open>TaskFilters\<close> without paging and sorting. A comparison with an
  \<^verbatim>\<open>Invalid Date\<close> is false.
\<close>

record task_filters =
  tf_status :: "status option"
  tf_priority :: "priority option"
  tf_search :: "string option"
  tf_tag :: "string option"
  tf_dueBefore :: "string option"
  tf_dueAfter :: "string option"

definition search_hit :: "string \<Rightarrow> task \<Rightarrow> bool" where
  "search_hit search t =
     (let searchLower = toLowerCase search;
          matchesTitle = str_includes (toLowerCase (title t)) searchLower;
          matchesDescription =
            (case description t of
               None \<Rightarrow> False
             | Some x \<Rightarrow> str_includes (toLowerCase x) searchLower);
          matchesTags = list_ex (\<lambda>tag. str_includes (toLowerCase tag) searchLower) (tags t)
      in matchesTitle \<or> matchesDescription \<or> matchesTags)"

definition keep_task :: "runtime \<Rightarrow> task_filters \<Rightarrow> task \<Rightarrow> bool" where
  "keep_task rt fl t =
     (if (case tf_status fl of None \<Rightarrow> False | Some s \<Rightarrow> status t \<noteq> s) then False
      else if (case tf_priority fl of None \<Rightarrow> False | Some p \<Rightarrow> priority t \<noteq> p) then False
      else if (case truthy (tf_search fl) of None \<Rightarrow> False | Some s \<Rightarrow> \<not> search_hit s t)
        then False
      else if (case truthy (tf_tag fl) of None \<Rightarrow> False | Some g \<Rightarrow> g \<notin> set (tags t))
        then False
      else if (case (truthy (tf_dueBefore fl), dueDate t) of
                 (Some s, Some x) \<Rightarrow> (case newDate rt s of None \<Rightarrow> False | Some b \<Rightarrow> b < x)
               | _ \<Rightarrow> False)
        then False
      else if (case (truthy (tf_dueAfter fl), dueDate t) of
                 (Some s, Some x) \<Rightarrow> (case newDate rt s of None \<Rightarrow> False | Some a \<Rightarrow> x < a)
               | _ \<Rightarrow> False)
        then False
      else True)"

definition filterTasks :: "runtime \<Rightarrow> task list \<Rightarrow> task_filters \<Rightarrow> task list" where
  "filterTasks rt ts fl = filter (keep_task rt fl) ts"

section \<open>A regular-expression engine for examples\<close>

text \<open>
  MongoDB's \<^verbatim>\<open>$regex\<close> and JavaScript's \<^verbatim>\<open>RegExp\<close> read the search term as a pattern.
  On patterns made of ordinary characters and the wildcard \<^verbatim>\<open>.\<close> (any character but a
  line terminator), searched without regard to case, both agree with \<open>dot_search\<close>.
  \<open>dot_regExp_i\<close> compiles exactly these patterns; it gives no meaning to a pattern with
  another special character.
\<close>

definition regex_special :: "char \<Rightarrow> bool" where
  "regex_special c =
     (c \<in> set [CHR 0x5C, CHR ''^'', CHR ''$'', CHR ''.'', CHR ''|'', CHR ''?'', CHR ''*'',
               CHR ''+'', CHR ''('', CHR '')'', CHR ''['', CHR '']'', CHR ''{'', CHR ''}''])"

definition dot_char :: "char \<Rightarrow> char \<Rightarrow> bool" where
  "dot_char p c =
     (if p = CHR ''.'' then c \<notin> set [CHR 0x0A, CHR 0x0D]
      else toLower_char p = toLower_char c)"

fun dot_match_here :: "string \<Rightarrow> string \<Rightarrow> bool" where
  "dot_match_here [] text = True"
| "dot_match_here (p # ps) [] = False"
| "dot_match_here (p # ps) (c # cs) = (dot_char p c \<and> dot_match_here ps cs)"

fun dot_search :: "string \<Rightarrow> string \<Rightarrow> bool" where
  "dot_search p [] = dot_match_here p []"
| "dot_search p (c # cs) = (dot_match_here p (c # cs) \<or> dot_search p cs)"

definition dot_regExp_i :: "string \<Rightarrow> (string \<Rightarrow> bool) option" where
  "dot_regExp_i p =
     (if list_ex (\<lambda>c. regex_special c \<and> c \<noteq> CHR ''.'') p then None
      else Some (dot_search p))"

section \<open>Example data\<close>

text \<open>
  A runtime that knows two date strings (1 January 2030 and 1 January 2020, UTC) and
  compiles patterns with \<open>dot_regExp_i\<close>; user 7 owns the example tasks, user 8 is
  another account.
\<close>

definition demo_runtime :: runtime where
  "demo_runtime =
     \<lparr> isISO8601 = (\<lambda>s. s \<in> set [''2030-01-01'', ''2020-01-01'']),
       newDate = (\<lambda>s. if s = ''2030-01-01'' then Some 1893456000000
                       else if s = ''2020-01-01'' then Some 1577836800000
                       else None),
       regExp_i = dot_regExp_i \<rparr>"

definition empty_body :: task_body where
  "empty_body =
     \<lparr> b_title = None, b_description = None, b_status = None, b_priority = None,
       b_dueDate = None, b_tags = None \<rparr>"

definition empty_query :: list_query where
  "empty_query =
     \<lparr> q_page = None, q_limit = None, q_status = None, q_priority = None, q_search = None,
       q_tag = None, q_dueBefore = None, q_dueAfter = None, q_sortBy = None,
       q_sortOrder = None \<rparr>"

definition pending_task :: task where
  "pending_task =
     \<lparr> task_id = 1, title = ''write report'', description = None, status = Pending,
       priority = Medium, dueDate = None, tags = [], user = 7, completedAt = None,
       createdAt = 10, updatedAt = 10 \<rparr>"

definition completed_task :: task where
  "completed_task =
     \<lparr> task_id = 2, title = ''send invoice'', description = Some ''monthly'',
       status = Completed, priority = High, dueDate = Some 1893456000000,
       tags = [''urgent-fix''], user = 7, completedAt = Some 500,
       createdAt = 20, updatedAt = 500 \<rparr>"

text \<open>Request bodies and a collection of two tasks of user 7.\<close>

definition complete_body :: task_body where
  "complete_body = empty_body\<lparr>b_status := Some ''completed''\<rparr>"

definition reopen_body :: task_body where
  "reopen_body = empty_body\<lparr>b_status := Some ''pending''\<rparr>"

definition past_due_body :: task_body where
  "past_due_body = empty_body\<lparr>b_dueDate := Some (DueString ''2020-01-01'')\<rparr>"

definition future_due_body :: task_body where
  "future_due_body = empty_body\<lparr>b_dueDate := Some (DueString ''2030-01-01'')\<rparr>"

definition clear_due_body :: task_body where
  "clear_due_body = empty_body\<lparr>b_dueDate := Some DueNull\<rparr>"

definition rename_body :: task_body where
  "rename_body = empty_body\<lparr>b_title := Some ''  pay rent '', b_priority := Some ''low''\<rparr>"

definition blank_title_body :: task_body where
  "blank_title_body = empty_body\<lparr>b_title := Some ''   ''\<rparr>"

definition demo_store :: "task list" where
  "demo_store = [pending_task, completed_task]"





definition dueBefore_query :: list_query where
  "dueBefore_query = empty_query\<lparr>q_dueBefore := Some ''2030-01-01''\<rparr>"

definition before2020_filters :: task_filters where
  "before2020_filters =
     \<lparr> tf_status = None, tf_priority = None, tf_search = None, tf_tag = None,
       tf_dueBefore = Some ''2020-01-01'', tf_dueAfter = None \<rparr>"

definition due_before_midnight_task :: task where
  "due_before_midnight_task =
     \<lparr> task_id = 3, title = ''call bank'', description = None, status = Pending,
       priority = Low, dueDate = Some 1700006399999, tags = [], user = 7,
       completedAt = None, createdAt = 30, updatedAt = 30 \<rparr>"

definition bad_date_query :: list_query where
  "bad_date_query = empty_query\<lparr>q_dueBefore := Some ''not-a-date''\<rparr>"

definition dot_query :: list_query where
  "dot_query = empty_query\<lparr>q_search := Some ''.''\<rparr>"

definition dot_filters :: task_filters where
  "dot_filters =
     \<lparr> tf_status = None, tf_priority = None, tf_search = Some ''.'', tf_tag = None,
       tf_dueBefore = None, tf_dueAfter = None \<rparr>"

definition urgentfix_task :: task where
  "urgentfix_task =
     \<lparr> task_id = 4, title = ''patch server'', description = None, status = InProgress,
       priority = High, dueDate = None, tags = [''urgentfix''], user = 7,
       completedAt = None, createdAt = 40, updatedAt = 40 \<rparr>"

section \<open>Derived field isOverdue\<close>

text \<open>
  Backend virtual, serialised with every task (\<^verbatim>\<open>toJSON: { virtuals: true }\<close>):
  \<^verbatim>\<open>this.dueDate && this.dueDate < new Date() && this.status !== 'completed'\<close>.
  The model returns the truthiness of the JavaScript value (an absent due date gives
  \<^verbatim>\<open>undefined\<close>, which is falsy); \<open>now\<close> is the value of \<^verbatim>\<open>new Date()\<close> at the read.
\<close>

definition isOverdue_virtual :: "timestamp \<Rightarrow> task \<Rightarrow> bool" where
  "isOverdue_virtual now t =
     (case dueDate t of
        None \<Rightarrow> False
      | Some d \<Rightarrow> d < now \<and> status t \<noteq> Completed)"

text \<open>
  Client helper \<^verbatim>\<open>taskUtils.isOverdue\<close>: returns false when the due date is missing or
  the status is completed or cancelled, otherwise compares the due date with the clock.
\<close>

definition taskUtils_isOverdue :: "timestamp \<Rightarrow> task \<Rightarrow> bool" where
  "taskUtils_isOverdue now t =
     (if dueDate t = None \<or> status t = Completed \<or> status t = Cancelled then False
      else the (dueDate t) < now)"

text \<open>The sentence of the specification, written out.\<close>

definition spec_isOverdue :: "timestamp \<Rightarrow> task \<Rightarrow> bool" where
  "spec_isOverdue now t =
     (case dueDate t of
        None \<Rightarrow> False
      | Some d \<Rightarrow> d < now \<and> status t \<noteq> Completed \<and> status t \<noteq> Cancelled)"

text \<open>A cancelled task whose due date has passed.\<close>

definition cancelled_task :: task where
  "cancelled_task =
     \<lparr> task_id = 1, title = ''file report'', description = None, status = Cancelled,
       priority = Medium, dueDate = Some 1000, tags = [], user = 7, completedAt = None,
       createdAt = 10, updatedAt = 20 \<rparr>"

section \<open>Properties of isOverdue\<close>

lemma taskUtils_isOverdue_spec: "taskUtils_isOverdue now t = spec_isOverdue now t"
  by (auto simp: taskUtils_isOverdue_def spec_isOverdue_def split: option.splits)

lemma isOverdue_virtual_not_cancelled:
  "status t \<noteq> Cancelled \<Longrightarrow> isOverdue_virtual now t = spec_isOverdue now t"
  by (auto simp: isOverdue_virtual_def spec_isOverdue_def split: option.splits)

text \<open>
  C4. The serialised field isOverdue is meant to be true exactly when the due date is
  present, lies before now, and the status is neither completed nor cancelled. At the
  cancelled task above, read at time 2000, the backend virtual answers true although the
  specified value (and the client helper's answer) is false.
\<close>

theorem isOverdue_virtual_cancelled_diverges:
  "isOverdue_virtual 2000 cancelled_task
   \<and> \<not> spec_isOverdue 2000 cancelled_task
   \<and> \<not> taskUtils_isOverdue 2000 cancelled_task"
  by (simp add: isOverdue_virtual_def spec_isOverdue_def taskUtils_isOverdue_def
      cancelled_task_def)

section \<open>Lemmas about validation and lookup\<close>

lemma check_status_cast:
  "check_status v = [] \<Longrightarrow> \<exists>st. cast_enum status_of_str v = Some st"
  by (auto simp: check_status_def cast_enum_def status_of_str_def split: option.splits if_splits)

lemma check_priority_cast:
  "check_priority v = [] \<Longrightarrow> \<exists>pr. cast_enum priority_of_str v = Some pr"
  by (auto simp: check_priority_def cast_enum_def priority_of_str_def split: option.splits if_splits)

lemma update_dueDate_custom_cast:
  "update_dueDate_custom rt v \<Longrightarrow> \<exists>d. update_dueDate rt (Some v) = Some d"
  by (auto simp: update_dueDate_custom_def update_dueDate_def due_truthy_def due_text_def
      split: due_value.splits if_splits)

lemma check_tags_schema:
  "check_tags (Some ts) = [] \<Longrightarrow> schema_tags (map trim ts) = []"
proof -
  assume a: "check_tags (Some ts) = []"
  have "\<forall>it \<in> set (zip [0..<length ts] ts). check_tag it = []"
    using a by (simp add: check_tags_def)
  moreover have "\<forall>t \<in> set ts. \<exists>i. (i, t) \<in> set (zip [0..<length ts] ts)"
    by (metis in_set_conv_nth length_upt diff_zero in_set_zip fst_conv snd_conv)
  ultimately have "\<forall>t \<in> set ts. length (trim t) \<le> 20"
    by (fastforce simp: check_tag_def split: if_splits)
  then show ?thesis
    by (force simp: schema_tags_def)
qed

lemma validate_update_parts:
  assumes "validate_update rt b = []"
  shows "check_status (b_status b) = []" "check_priority (b_priority b) = []"
    "check_description (b_description b) = []" "check_tags (b_tags b) = []"
    "\<And>s. b_title b = Some s \<Longrightarrow> 1 \<le> length (trim s) \<and> length (trim s) \<le> 100"
    "\<And>v. b_dueDate b = Some v \<Longrightarrow> update_dueDate_custom rt v"
  using assms by (auto simp: validate_update_def split: option.splits if_splits)

lemma distinct_key_tail:
  "distinct (map k (x # xs)) \<Longrightarrow> y \<in> set xs \<Longrightarrow> k y \<noteq> k x"
  by (metis distinct.simps(2) imageI list.simps(9) set_map)

lemma find_distinct_id:
  "distinct (map task_id store) \<Longrightarrow> find (\<lambda>t. task_id t = tid \<and> P t) store = Some t
   \<Longrightarrow> find (\<lambda>t. task_id t = tid) store = Some t"
proof (induction store)
  case Nil
  then show ?case by simp
next
  case (Cons x xs)
  show ?case
  proof (cases "task_id x = tid")
    case True
    then have "\<forall>y \<in> set xs. task_id y \<noteq> tid"
      using Cons.prems(1) by (metis distinct_key_tail)
    then have "find (\<lambda>t. task_id t = tid \<and> P t) xs = None"
      by (auto simp: find_None_iff)
    with Cons.prems(2) True show ?thesis
      by (simp split: if_splits)
  next
    case False
    with Cons show ?thesis by simp
  qed
qed

lemma findOne_findById:
  "distinct (map task_id store) \<Longrightarrow> findOne store tid uid = Some t \<Longrightarrow> findById store tid = Some t"
  unfolding findOne_def findById_def by (rule find_distinct_id)

lemma findOne_user: "findOne store tid uid = Some t \<Longrightarrow> user t = uid \<and> task_id t = tid \<and> t \<in> set store"
  by (auto simp: findOne_def find_Some_iff)

lemma findOne_other_owner:
  assumes "distinct (map task_id store)" "t \<in> set store" "user t \<noteq> uid"
  shows "findOne store (task_id t) uid = None"
proof -
  have "\<forall>x \<in> set store. task_id x = task_id t \<longrightarrow> x = t"
    using assms(1,2) by (meson distinct_map inj_onD)
  with assms(3) show ?thesis
    by (auto simp: findOne_def find_None_iff)
qed

lemma findOne_absent:
  "tid \<notin> task_id ` set store \<Longrightarrow> findOne store tid uid = None"
  by (auto simp: findOne_def find_None_iff)

lemma update_first_find:
  "find P xs = Some x \<Longrightarrow> P (f x) \<Longrightarrow> find P (update_first P f xs) = Some (f x)"
  by (induction xs) (auto split: if_splits)

lemma update_first_none:
  "\<forall>x \<in> set xs. \<not> P x \<Longrightarrow> update_first P f xs = xs"
  by (induction xs) auto

lemma update_first_map:
  "distinct (map k xs) \<Longrightarrow> update_first (\<lambda>t. k t = i) f xs = map (\<lambda>t. if k t = i then f t else t) xs"
proof (induction xs)
  case Nil
  then show ?case by simp
next
  case (Cons x xs)
  show ?case
  proof (cases "k x = i")
    case True
    then have "\<forall>y \<in> set xs. k y \<noteq> i"
      using Cons.prems by (metis distinct_key_tail)
    then have "map (\<lambda>t. if k t = i then f t else t) xs = xs"
      by (simp add: map_idI)
    with True show ?thesis by simp
  next
    case False
    with Cons show ?thesis by simp
  qed
qed

lemma build_updateData_valid:
  assumes v: "validate_update rt body = []"
  shows "\<exists>u. build_updateData rt (sanitize body) = Some u
     \<and> u_title u = map_option trim (b_title body)
     \<and> u_description u = map_option trim (b_description body)
     \<and> cast_enum status_of_str (b_status body) = Some (u_status u)
     \<and> cast_enum priority_of_str (b_priority body) = Some (u_priority u)
     \<and> update_dueDate rt (b_dueDate body) = Some (u_dueDate u)
     \<and> u_tags u = map_option (map trim) (b_tags body)"
proof -
  have "check_status (b_status body) = []"
    by (rule validate_update_parts(1)[OF v])
  then have "\<exists>st. cast_enum status_of_str (b_status body) = Some st"
    by (rule check_status_cast)
  then obtain st where st: "cast_enum status_of_str (b_status body) = Some st" ..
  have "check_priority (b_priority body) = []"
    by (rule validate_update_parts(2)[OF v])
  then have "\<exists>pr. cast_enum priority_of_str (b_priority body) = Some pr"
    by (rule check_priority_cast)
  then obtain pr where pr: "cast_enum priority_of_str (b_priority body) = Some pr" ..
  have "\<exists>due. update_dueDate rt (b_dueDate body) = Some due"
  proof (cases "b_dueDate body")
    case None
    then show ?thesis by (simp add: update_dueDate_def)
  next
    case (Some x)
    then have "update_dueDate_custom rt x"
      by (rule validate_update_parts(6)[OF v])
    then show ?thesis
      using Some update_dueDate_custom_cast[of rt x] by simp
  qed
  then obtain due where due: "update_dueDate rt (b_dueDate body) = Some due" ..
  define u where "u = \<lparr> u_title = map_option trim (b_title body),
      u_description = map_option trim (b_description body), u_status = st,
      u_priority = pr, u_dueDate = due, u_tags = map_option (map trim) (b_tags body) \<rparr>"
  have "build_updateData rt (sanitize body) = Some u"
    by (simp add: build_updateData_def sanitize_def st pr due u_def)
  moreover have "u_title u = map_option trim (b_title body)"
    "u_description u = map_option trim (b_description body)"
    "u_status u = st" "u_priority u = pr" "u_dueDate u = due"
    "u_tags u = map_option (map trim) (b_tags body)"
    by (simp_all add: u_def)
  ultimately show ?thesis
    using st pr due by (intro exI[of _ u]) simp
qed

lemma update_validators_valid:
  assumes v: "validate_update rt body = []"
    and u: "build_updateData rt (sanitize body) = Some u"
  shows "update_validators now u =
     (case u_dueDate u of None \<Rightarrow> [] | Some d \<Rightarrow> schema_dueDate now d)"
proof -
  obtain u' where u': "build_updateData rt (sanitize body) = Some u'"
    "u_title u' = map_option trim (b_title body)"
    "u_description u' = map_option trim (b_description body)"
    "u_tags u' = map_option (map trim) (b_tags body)"
    using build_updateData_valid[OF v] by blast
  then have eq: "u' = u" using u by simp
  have t: "(case u_title u of None \<Rightarrow> [] | Some s \<Rightarrow> schema_title s) = []"
    using validate_update_parts(5)[OF v] u'(2) eq
    by (auto simp: schema_title_def split: option.splits)
  have d: "(case u_description u of None \<Rightarrow> [] | Some s \<Rightarrow> schema_description s) = []"
    using validate_update_parts(3)[OF v] u'(3) eq
    by (auto simp: schema_description_def check_description_def split: option.splits if_splits)
  have g: "(case u_tags u of None \<Rightarrow> [] | Some ts \<Rightarrow> schema_tags ts) = []"
    using validate_update_parts(4)[OF v] u'(4) eq check_tags_schema
    by (auto split: option.splits)
  show ?thesis
    by (simp add: update_validators_def t d g)
qed

lemma update_task_found:
  assumes v: "validate_update rt body = []"
    and f: "findOne store tid uid = Some t"
    and u: "build_updateData rt (sanitize body) = Some u"
  shows "update_task rt now_v now_t store uid tid body =
     (if (case u_dueDate u of None \<Rightarrow> True | Some d \<Rightarrow> dueDate_validator now_v d)
      then (TaskUpdated (findById (update_first (\<lambda>x. task_id x = tid) (apply_update now_t u) store) tid),
            update_first (\<lambda>x. task_id x = tid) (apply_update now_t u) store)
      else (Thrown (MongooseValidationError [''Due date must be in the future'']), store))"
proof -
  have uv: "update_validators now_v u =
     (case u_dueDate u of None \<Rightarrow> [] | Some d \<Rightarrow> schema_dueDate now_v d)"
    by (rule update_validators_valid[OF v u])
  have step: "update_task rt now_v now_t store uid tid body =
     (case findByIdAndUpdate now_v now_t store tid u of
        Inl e \<Rightarrow> (Thrown e, store)
      | Inr (t, store') \<Rightarrow> (TaskUpdated t, store'))"
    by (simp add: update_task_def v f u)
  show ?thesis
  proof (cases "case u_dueDate u of None \<Rightarrow> True | Some d \<Rightarrow> dueDate_validator now_v d")
    case True
    then have "update_validators now_v u = []"
      unfolding uv by (cases "u_dueDate u") (simp_all add: schema_dueDate_def)
    then show ?thesis
      unfolding step using True by (simp add: findByIdAndUpdate_def Let_def)
  next
    case False
    then have "update_validators now_v u = [''Due date must be in the future'']"
      unfolding uv by (cases "u_dueDate u") (simp_all add: schema_dueDate_def)
    then show ?thesis
      unfolding step using False by (simp add: findByIdAndUpdate_def)
  qed
qed

lemma find_exists: "x \<in> set xs \<Longrightarrow> P x \<Longrightarrow> \<exists>y. find P xs = Some y"
  by (induction xs) auto

lemma findById_after_update:
  assumes "findOne store tid uid = Some t"
  shows "\<exists>t0. findById store tid = Some t0 \<and>
     findById (update_first (\<lambda>x. task_id x = tid) (apply_update now u) store) tid
       = Some (apply_update now u t0)"
proof -
  have "t \<in> set store" "task_id t = tid"
    using assms findOne_user by blast+
  then obtain t0 where t0: "find (\<lambda>x. task_id x = tid) store = Some t0"
    using find_exists[of t store "\<lambda>x. task_id x = tid"] by blast
  then have "task_id t0 = tid"
    by (auto simp: find_Some_iff)
  then have "task_id (apply_update now u t0) = tid"
    by (simp add: apply_update_def)
  then have "find (\<lambda>x. task_id x = tid) (update_first (\<lambda>x. task_id x = tid) (apply_update now u) store)
      = Some (apply_update now u t0)"
    using t0 by (rule update_first_find[rotated])
  with t0 show ?thesis
    by (simp add: findById_def)
qed

lemmas eval_update =
  update_task_def validate_update_def empty_body_def
  check_description_def check_status_def check_priority_def check_tags_def
  findOne_def build_updateData_def sanitize_def cast_enum_def
  status_of_str_def priority_of_str_def update_dueDate_def findByIdAndUpdate_def
  update_validators_def apply_update_def findById_def update_dueDate_custom_def
  due_truthy_def due_text_def demo_runtime_def schema_dueDate_def dueDate_validator_def
  schema_title_def schema_description_def schema_tags_def

section \<open>The completion timestamp\<close>

text \<open>
  Creation goes through \<^verbatim>\<open>save\<close>: the created task has \<^verbatim>\<open>completedAt\<close> exactly when it
  is created completed, and then it is the hook's reading of the clock.
\<close>

lemma pre_save_completedAt:
  assumes "completedAt doc = None" and "status_modified \<or> status doc = Pending"
  shows "completedAt (pre_save status_modified now doc)
      = (if status doc = Completed then Some now else None)"
    and "status (pre_save status_modified now doc) = status doc"
  using assms by (auto simp: pre_save_def)

lemma model_create_completedAt:
  assumes "model_create now_v now_h now_t new_id uid b due = Inr t"
  shows "completedAt t = (if status t = Completed then Some now_h else None)"
proof -
  obtain st pr where c: "cast_status (b_status b) = Some st" "cast_priority (b_priority b) = Some pr"
    using assms by (auto simp: model_create_def split: option.splits prod.splits)
  define doc where "doc = \<lparr> task_id = new_id, title = opt_text (b_title b),
      description = b_description b, status = st, priority = pr, dueDate = due,
      tags = (case b_tags b of None \<Rightarrow> [] | Some ts \<Rightarrow> ts),
      user = uid, completedAt = None, createdAt = now_t, updatedAt = now_t \<rparr>"
  have t: "t = pre_save (b_status b \<noteq> None) now_h doc"
    using assms c by (simp add: model_create_def doc_def Let_def split: if_splits)
  have "b_status b \<noteq> None \<or> status doc = Pending"
    using c(1) by (cases "b_status b") (simp_all add: cast_status_def doc_def)
  moreover have "completedAt doc = None"
    by (simp add: doc_def)
  ultimately show ?thesis
    unfolding t using pre_save_completedAt[of doc "b_status b \<noteq> None" now_h] by simp
qed

lemma create_task_completedAt:
  assumes "create_task rt now_v now_h now_t new_id store uid body = (TaskCreated t, store')"
  shows "completedAt t = (if status t = Completed then Some now_h else None)"
proof -
  have "\<exists>b due. model_create now_v now_h now_t new_id uid b due = Inr t"
    using assms
    by (auto simp: create_task_def Let_def split: if_splits option.splits sum.splits)
  then show ?thesis
    using model_create_completedAt by blast
qed

text \<open>
  C1. After every mutation \<^verbatim>\<open>completedAt\<close> should be set exactly when the status is
  completed. The schema's comment announces this for the pre-save hook, but the update
  route writes through \<^verbatim>\<open>findByIdAndUpdate\<close>, which never runs that hook. Updating the
  pending task with \<^verbatim>\<open>{status: 'completed'}\<close> stores a completed task without
  \<^verbatim>\<open>completedAt\<close>; updating the completed task with \<^verbatim>\<open>{status: 'pending'}\<close> stores a
  pending task that keeps its \<^verbatim>\<open>completedAt\<close>.
\<close>

theorem update_status_leaves_completedAt:
  "update_task demo_runtime 5000 6000 [pending_task] 7 1 complete_body
     = (TaskUpdated (Some (pending_task\<lparr>status := Completed, updatedAt := 6000\<rparr>)),
        [pending_task\<lparr>status := Completed, updatedAt := 6000\<rparr>])
   \<and> completedAt (pending_task\<lparr>status := Completed, updatedAt := 6000\<rparr>) = None
   \<and> update_task demo_runtime 5000 6000 [completed_task] 7 2 reopen_body
     = (TaskUpdated (Some (completed_task\<lparr>status := Pending, updatedAt := 6000\<rparr>)),
        [completed_task\<lparr>status := Pending, updatedAt := 6000\<rparr>])
   \<and> completedAt (completed_task\<lparr>status := Pending, updatedAt := 6000\<rparr>) = Some 500"
  by (simp add: eval_update complete_body_def reopen_body_def pending_task_def completed_task_def)

section \<open>Due dates on update\<close>

text \<open>
  C5, as stated, fails: an update that supplies a due date in the past (1 January 2020,
  sent in November 2023) is not accepted. The schema validator runs because the route
  passes \<^verbatim>\<open>runValidators: true\<close>; the error is thrown and the collection is unchanged.
\<close>

theorem update_past_dueDate_rejected:
  "update_task demo_runtime 1700000000000 1700000000000 [pending_task] 7 1 past_due_body
     = (Thrown (MongooseValidationError [''Due date must be in the future'']), [pending_task])"
  by (simp add: eval_update past_due_body_def pending_task_def)

text \<open>
  C5, amended. For an update of an existing task whose body passes the request validators
  and carries \<^verbatim>\<open>dueDate\<close>: a \<^verbatim>\<open>null\<close> or empty due date is always accepted and clears the
  stored due date; a non-empty one is a valid date \<open>d\<close> and is checked against the clock:
  when \<open>d\<close> is strictly later than now the update is accepted and \<open>d\<close> is stored, otherwise
  the update is rejected with the schema's validation error and nothing is written.
\<close>

theorem update_dueDate_revalidated:
  assumes v: "validate_update rt body = []"
    and f: "findOne store tid uid = Some t"
    and b: "b_dueDate body = Some v"
  shows "if \<not> due_truthy v
         then accepted (update_task rt now_v now_t store uid tid body) tid None
         else (\<exists>d. newDate rt (due_text v) = Some d \<and>
                (if now_v < d
                 then accepted (update_task rt now_v now_t store uid tid body) tid (Some d)
                 else update_task rt now_v now_t store uid tid body =
                   (Thrown (MongooseValidationError [''Due date must be in the future'']), store)))"
proof -
  obtain u where u: "build_updateData rt (sanitize body) = Some u"
    and ud: "update_dueDate rt (b_dueDate body) = Some (u_dueDate u)"
    using build_updateData_valid[OF v] by blast
  note upd = update_task_found[OF v f u, of now_v now_t]
  obtain t0 where t0:
    "findById (update_first (\<lambda>x. task_id x = tid) (apply_update now_t u) store) tid
       = Some (apply_update now_t u t0)"
    using findById_after_update[OF f] by blast
  show ?thesis
  proof (cases "due_truthy v")
    case False
    then have "u_dueDate u = Some None"
      using ud b by (simp add: update_dueDate_def)
    then show ?thesis
      using False upd t0
      by (simp add: accepted_def dueDate_validator_def apply_update_def)
  next
    case True
    then obtain d where d: "newDate rt (due_text v) = Some d" "u_dueDate u = Some (Some d)"
      using ud b by (auto simp: update_dueDate_def)
    then show ?thesis
      using True upd t0
      by (simp add: accepted_def dueDate_validator_def apply_update_def)
  qed
qed

text \<open>
  The three cases at the completed task: clearing the due date, moving it to 2030, and
  moving it to 2020.
\<close>

theorem update_dueDate_revalidated_witness:
  "accepted (update_task demo_runtime 1700000000000 1700000000001 [completed_task] 7 2 clear_due_body) 2 None
   \<and> accepted (update_task demo_runtime 1700000000000 1700000000001 [completed_task] 7 2 future_due_body) 2 (Some 1893456000000)
   \<and> update_task demo_runtime 1700000000000 1700000000001 [completed_task] 7 2 past_due_body
      = (Thrown (MongooseValidationError [''Due date must be in the future'']), [completed_task])"
proof -
  have f: "findOne [completed_task] 2 7 = Some completed_task"
    by (simp add: findOne_def completed_task_def)
  have v1: "validate_update demo_runtime clear_due_body = []"
    by (simp add: eval_update clear_due_body_def)
  have v2: "validate_update demo_runtime future_due_body = []"
    by (simp add: eval_update future_due_body_def)
  have v3: "validate_update demo_runtime past_due_body = []"
    by (simp add: eval_update past_due_body_def)
  have b1: "b_dueDate clear_due_body = Some DueNull"
    by (simp add: clear_due_body_def)
  have b2: "b_dueDate future_due_body = Some (DueString ''2030-01-01'')"
    by (simp add: future_due_body_def)
  have b3: "b_dueDate past_due_body = Some (DueString ''2020-01-01'')"
    by (simp add: past_due_body_def)
  show ?thesis
    using update_dueDate_revalidated[OF v1 f b1, of 1700000000000 1700000000001]
      update_dueDate_revalidated[OF v2 f b2, of 1700000000000 1700000000001]
      update_dueDate_revalidated[OF v3 f b3, of 1700000000000 1700000000001]
    by (simp add: due_truthy_def due_text_def demo_runtime_def)
qed

lemma status_of_str_inv: "status_of_str s = Some st \<Longrightarrow> status_str st = s"
  by (auto simp: status_of_str_def split: if_splits)

lemma priority_of_str_inv: "priority_of_str s = Some pr \<Longrightarrow> priority_str pr = s"
  by (auto simp: priority_of_str_def split: if_splits)

lemma update_task_TaskUpdated_valid:
  assumes "update_task rt now_v now_t store uid tid body = (TaskUpdated r, store')"
  shows "validate_update rt body = []"
proof (rule ccontr)
  assume "validate_update rt body \<noteq> []"
  then have "update_task rt now_v now_t store uid tid body
      = (ValidationFailed (validate_update rt body), store)"
    by (simp add: update_task_def)
  with assms show False by simp
qed

lemma same_id_same_task:
  assumes "distinct (map task_id store)" "x \<in> set store" "y \<in> set store" "task_id x = task_id y"
  shows "x = y"
  using assms by (meson distinct_map inj_onD)

section \<open>Partial updates\<close>

text \<open>
  C9. A successful update of the task \<open>t\<close> stores a task \<open>t'\<close> in its place and leaves
  every other document alone. Each of title, description, status, priority, dueDate and
  tags is the (trimmed, cast) value from the body when the body has the field, and the
  previous value when it has not. \<^verbatim>\<open>completedAt\<close> is unchanged, so in particular it is
  unchanged by an update without a status; the id, the owner and \<^verbatim>\<open>createdAt\<close> are
  unchanged too, and \<^verbatim>\<open>updatedAt\<close> is the time of the write.
\<close>

theorem update_changes_only_provided_fields:
  assumes d: "distinct (map task_id store)"
    and f: "findOne store tid uid = Some t"
    and r: "update_task rt now_v now_t store uid tid body = (TaskUpdated r, store')"
  shows "\<exists>t'. r = Some t'
      \<and> store' = map (\<lambda>x. if task_id x = tid then t' else x) store
      \<and> title t' = (case b_title body of None \<Rightarrow> title t | Some s \<Rightarrow> trim s)
      \<and> description t' =
          (case b_description body of None \<Rightarrow> description t | Some s \<Rightarrow> Some (trim s))
      \<and> (case b_status body of
            None \<Rightarrow> status t' = status t
          | Some s \<Rightarrow> status_str (status t') = s)
      \<and> (case b_priority body of
            None \<Rightarrow> priority t' = priority t
          | Some s \<Rightarrow> priority_str (priority t') = s)
      \<and> dueDate t' =
          (case b_dueDate body of
             None \<Rightarrow> dueDate t
           | Some v \<Rightarrow> if due_truthy v then newDate rt (due_text v) else None)
      \<and> tags t' = (case b_tags body of None \<Rightarrow> tags t | Some ts \<Rightarrow> map trim ts)
      \<and> completedAt t' = completedAt t
      \<and> task_id t' = task_id t \<and> user t' = user t \<and> createdAt t' = createdAt t
      \<and> updatedAt t' = now_t"
proof -
  have v: "validate_update rt body = []"
    using r by (rule update_task_TaskUpdated_valid)
  obtain u where u: "build_updateData rt (sanitize body) = Some u"
    and ut: "u_title u = map_option trim (b_title body)"
    and ud: "u_description u = map_option trim (b_description body)"
    and us: "cast_enum status_of_str (b_status body) = Some (u_status u)"
    and up: "cast_enum priority_of_str (b_priority body) = Some (u_priority u)"
    and ue: "update_dueDate rt (b_dueDate body) = Some (u_dueDate u)"
    and ug: "u_tags u = map_option (map trim) (b_tags body)"
    using build_updateData_valid[OF v] by (elim exE conjE)
  define t' where "t' = apply_update now_t u t"
  have fb: "findById store tid = Some t"
    using d f by (rule findOne_findById)
  have tid: "task_id t = tid" "t \<in> set store"
    using f findOne_user by simp_all
  have upd: "update_task rt now_v now_t store uid tid body =
     (if (case u_dueDate u of None \<Rightarrow> True | Some d \<Rightarrow> dueDate_validator now_v d)
      then (TaskUpdated (findById (update_first (\<lambda>x. task_id x = tid) (apply_update now_t u) store) tid),
            update_first (\<lambda>x. task_id x = tid) (apply_update now_t u) store)
      else (Thrown (MongooseValidationError [''Due date must be in the future'']), store))"
    by (rule update_task_found[OF v f u])
  have ok: "(case u_dueDate u of None \<Rightarrow> True | Some d \<Rightarrow> dueDate_validator now_v d)"
  proof (rule ccontr)
    assume "\<not> ?thesis"
    then have "update_task rt now_v now_t store uid tid body =
      (Thrown (MongooseValidationError [''Due date must be in the future'']), store)"
      unfolding upd by simp
    with r show False by simp
  qed
  have r1: "r = findById (update_first (\<lambda>x. task_id x = tid) (apply_update now_t u) store) tid"
    and s1: "store' = update_first (\<lambda>x. task_id x = tid) (apply_update now_t u) store"
    using r ok unfolding upd by auto
  have "findById (update_first (\<lambda>x. task_id x = tid) (apply_update now_t u) store) tid
      = Some (apply_update now_t u t)"
    using findById_after_update[OF f, of now_t u] fb by simp
  then have rt': "r = Some t'"
    by (simp add: r1 t'_def)
  have "store' = map (\<lambda>x. if task_id x = tid then apply_update now_t u x else x) store"
    unfolding s1 using d by (rule update_first_map)
  also have "\<dots> = map (\<lambda>x. if task_id x = tid then t' else x) store"
  proof (rule map_cong[OF refl])
    fix x assume x: "x \<in> set store"
    show "(if task_id x = tid then apply_update now_t u x else x)
        = (if task_id x = tid then t' else x)"
    proof (cases "task_id x = tid")
      case True
      then have "x = t"
        using same_id_same_task[OF d x tid(2)] tid(1) by simp
      then show ?thesis by (simp add: t'_def)
    next
      case False
      then show ?thesis by simp
    qed
  qed
  finally have st: "store' = map (\<lambda>x. if task_id x = tid then t' else x) store" .
  have f1: "title t' = (case b_title body of None \<Rightarrow> title t | Some s \<Rightarrow> trim s)"
    by (cases "b_title body") (simp_all add: t'_def apply_update_def ut)
  have f2: "description t' =
      (case b_description body of None \<Rightarrow> description t | Some s \<Rightarrow> Some (trim s))"
    by (cases "b_description body") (simp_all add: t'_def apply_update_def ud)
  have f3: "(case b_status body of
            None \<Rightarrow> status t' = status t
          | Some s \<Rightarrow> status_str (status t') = s)"
  proof (cases "b_status body")
    case None
    then have "u_status u = None" using us by (simp add: cast_enum_def)
    then show ?thesis using None by (simp add: t'_def apply_update_def)
  next
    case (Some s)
    then have "map_option Some (status_of_str s) = Some (u_status u)"
      using us by (simp add: cast_enum_def)
    then obtain x where "status_of_str s = Some x" "u_status u = Some x"
      by (cases "status_of_str s") auto
    then show ?thesis
      using Some status_of_str_inv by (simp add: t'_def apply_update_def)
  qed
  have f4: "(case b_priority body of
            None \<Rightarrow> priority t' = priority t
          | Some s \<Rightarrow> priority_str (priority t') = s)"
  proof (cases "b_priority body")
    case None
    then have "u_priority u = None" using up by (simp add: cast_enum_def)
    then show ?thesis using None by (simp add: t'_def apply_update_def)
  next
    case (Some s)
    then have "map_option Some (priority_of_str s) = Some (u_priority u)"
      using up by (simp add: cast_enum_def)
    then obtain x where "priority_of_str s = Some x" "u_priority u = Some x"
      by (cases "priority_of_str s") auto
    then show ?thesis
      using Some priority_of_str_inv by (simp add: t'_def apply_update_def)
  qed
  have f5: "dueDate t' =
          (case b_dueDate body of
             None \<Rightarrow> dueDate t
           | Some v \<Rightarrow> if due_truthy v then newDate rt (due_text v) else None)"
  proof (cases "b_dueDate body")
    case None
    then have "u_dueDate u = None" using ue by (simp add: update_dueDate_def)
    then show ?thesis using None by (simp add: t'_def apply_update_def)
  next
    case (Some v)
    then have "u_dueDate u = Some (if due_truthy v then newDate rt (due_text v) else None)"
      using ue by (auto simp: update_dueDate_def split: if_splits)
    then show ?thesis using Some by (simp add: t'_def apply_update_def)
  qed
  have f6: "tags t' = (case b_tags body of None \<Rightarrow> tags t | Some ts \<Rightarrow> map trim ts)"
    by (cases "b_tags body") (simp_all add: t'_def apply_update_def ug)
  have f7: "completedAt t' = completedAt t" "task_id t' = task_id t" "user t' = user t"
    "createdAt t' = createdAt t" "updatedAt t' = now_t"
    by (simp_all add: t'_def apply_update_def)
  show ?thesis
    using rt' st f1 f2 f3 f4 f5 f6 f7 by (intro exI[of _ t']) (intro conjI)
qed

text \<open>
  Renaming the completed task and lowering its priority keeps its description, status,
  due date, tags and completion time.
\<close>

theorem update_changes_only_provided_fields_witness:
  "\<exists>t'. update_task demo_runtime 5000 6000 demo_store 7 2 rename_body
          = (TaskUpdated (Some t'), [pending_task, t'])
      \<and> title t' = ''pay rent'' \<and> priority t' = Low
      \<and> description t' = Some ''monthly'' \<and> status t' = Completed
      \<and> dueDate t' = Some 1893456000000 \<and> tags t' = [''urgent-fix'']
      \<and> completedAt t' = Some 500 \<and> updatedAt t' = 6000"
proof -
  define t2 where "t2 = completed_task\<lparr>title := ''pay rent'', priority := Low, updatedAt := 6000\<rparr>"
  have d: "distinct (map task_id demo_store)"
    by (simp add: demo_store_def pending_task_def completed_task_def)
  have f: "findOne demo_store 2 7 = Some completed_task"
    by (simp add: findOne_def demo_store_def pending_task_def completed_task_def)
  have r: "update_task demo_runtime 5000 6000 demo_store 7 2 rename_body
      = (TaskUpdated (Some t2), [pending_task, t2])"
    by (simp add: eval_update rename_body_def demo_store_def pending_task_def
        completed_task_def t2_def trim_def is_space_def)
  from update_changes_only_provided_fields[OF d f r] obtain t' where t':
    "Some t2 = Some t'"
    "title t' = (case b_title rename_body of None \<Rightarrow> title completed_task | Some s \<Rightarrow> trim s)"
    "(case b_priority rename_body of
            None \<Rightarrow> priority t' = priority completed_task
          | Some s \<Rightarrow> priority_str (priority t') = s)"
    "completedAt t' = completedAt completed_task"
    by (elim exE conjE)
  have "t' = t2" using t'(1) by simp
  then show ?thesis
    using r t'(2,4)
    by (intro exI[of _ t2]) (simp add: t2_def completed_task_def rename_body_def empty_body_def
        trim_def is_space_def)
qed

lemma update_task_not_found:
  assumes "findOne store tid uid = None"
  shows "update_task rt now_v now_t store uid tid body =
     (if validate_update rt body = [] then NotFound
      else ValidationFailed (validate_update rt body), store)"
  using assms by (simp add: update_task_def)

section \<open>Tasks of another owner\<close>

text \<open>
  C2. Let \<open>t\<close> be a task of the collection that belongs to someone other than the requester
  \<open>uid\<close>. Reading and deleting by its id answer not-found; so does updating, once the body
  has passed the request validators, which run before any lookup and answer the same 400
  whatever the id. The collection is never changed and no task is returned. Each answer
  equals the answer given when the id occurs nowhere in the collection.
\<close>

theorem other_owner_not_found:
  assumes d: "distinct (map task_id store)"
    and m: "t \<in> set store"
    and o: "user t \<noteq> uid"
  shows "get_task store uid (task_id t) = NotFound
     \<and> delete_task store uid (task_id t) = (NotFound, store)
     \<and> update_task rt now_v now_t store uid (task_id t) body =
         (if validate_update rt body = [] then NotFound
          else ValidationFailed (validate_update rt body), store)
     \<and> get_task store uid (task_id t)
         = get_task (filter (\<lambda>x. task_id x \<noteq> task_id t) store) uid (task_id t)
     \<and> fst (delete_task store uid (task_id t))
         = fst (delete_task (filter (\<lambda>x. task_id x \<noteq> task_id t) store) uid (task_id t))
     \<and> fst (update_task rt now_v now_t store uid (task_id t) body)
         = fst (update_task rt now_v now_t (filter (\<lambda>x. task_id x \<noteq> task_id t) store)
                  uid (task_id t) body)"
proof -
  have n: "findOne store (task_id t) uid = None"
    using d m o by (rule findOne_other_owner)
  have "task_id t \<notin> task_id ` set (filter (\<lambda>x. task_id x \<noteq> task_id t) store)"
    by auto
  then have a: "findOne (filter (\<lambda>x. task_id x \<noteq> task_id t) store) (task_id t) uid = None"
    by (rule findOne_absent)
  have g: "get_task store uid (task_id t) = NotFound"
    by (simp add: get_task_def n)
  have g': "get_task (filter (\<lambda>x. task_id x \<noteq> task_id t) store) uid (task_id t) = NotFound"
    by (simp add: get_task_def a)
  have e: "delete_task store uid (task_id t) = (NotFound, store)"
    by (simp add: delete_task_def n)
  have e': "fst (delete_task (filter (\<lambda>x. task_id x \<noteq> task_id t) store) uid (task_id t))
      = NotFound"
    by (simp add: delete_task_def a)
  note u = update_task_not_found[OF n, of rt now_v now_t body]
  note u' = update_task_not_found[OF a, of rt now_v now_t body]
  show ?thesis
    unfolding g g' e e' u u' by simp
qed

text \<open>
  User 8 asks for task 2 of user 7; the answers are those for a collection without task 2,
  while user 7 gets the task.
\<close>

theorem other_owner_not_found_witness:
  "get_task demo_store 8 2 = NotFound
   \<and> delete_task demo_store 8 2 = (NotFound, demo_store)
   \<and> update_task demo_runtime 5000 6000 demo_store 8 2 rename_body = (NotFound, demo_store)
   \<and> update_task demo_runtime 5000 6000 demo_store 8 2 blank_title_body
       = (ValidationFailed [(Field ''title'', ''Title must be between 1 and 100 characters'')],
          demo_store)
   \<and> get_task demo_store 8 2 = get_task [pending_task] 8 2
   \<and> get_task demo_store 7 2 = TaskData completed_task"
proof -
  have d: "distinct (map task_id demo_store)"
    by (simp add: demo_store_def pending_task_def completed_task_def)
  have m: "completed_task \<in> set demo_store"
    by (simp add: demo_store_def)
  have o: "user completed_task \<noteq> 8"
    by (simp add: completed_task_def)
  have i: "task_id completed_task = 2"
    by (simp add: completed_task_def)
  have fl: "filter (\<lambda>x. task_id x \<noteq> 2) demo_store = [pending_task]"
    by (simp add: demo_store_def pending_task_def completed_task_def)
  have v1: "validate_update demo_runtime rename_body = []"
    by (simp add: eval_update rename_body_def trim_def is_space_def)
  have v2: "validate_update demo_runtime blank_title_body
      = [(Field ''title'', ''Title must be between 1 and 100 characters'')]"
    by (simp add: eval_update blank_title_body_def trim_def is_space_def)
  have own: "get_task demo_store 7 2 = TaskData completed_task"
    by (simp add: get_task_def findOne_def demo_store_def pending_task_def completed_task_def)
  show ?thesis
    using other_owner_not_found[OF d m o, of demo_runtime 5000 6000 rename_body]
      other_owner_not_found[OF d m o, of demo_runtime 5000 6000 blank_title_body]
    by (simp add: i fl v1 v2 own)
qed

section \<open>Lemmas about the list route\<close>










lemma set_insert_by: "set (insert_by le x xs) = insert x (set xs)"
  by (induction xs) auto

lemma set_sort_by: "set (sort_by le xs) = set xs"
  by (induction xs) (auto simp: sort_by_def set_insert_by)

lemma list_tasks_valid:
  assumes "validate_list q = []" and "build_filter rt uid (descriptor_of rt q) = Inr f"
  shows "list_tasks rt store uid q = TaskList (run_query (descriptor_of rt q) f store)"
  using assms by (simp add: list_tasks_def parse_list_query_def)

lemma list_tasks_TaskList:
  assumes "list_tasks rt store uid q = TaskList r"
  shows "validate_list q = []"
    and "\<exists>f. build_filter rt uid (descriptor_of rt q) = Inr f
      \<and> r = run_query (descriptor_of rt q) f store"
proof -
  show v: "validate_list q = []"
  proof (rule ccontr)
    assume "validate_list q \<noteq> []"
    then have "list_tasks rt store uid q = ValidationFailed (validate_list q)"
      by (simp add: list_tasks_def parse_list_query_def)
    with assms show False by simp
  qed
  have p: "parse_list_query rt q = Inr (descriptor_of rt q)"
    using v by (simp add: parse_list_query_def)
  show "\<exists>f. build_filter rt uid (descriptor_of rt q) = Inr f
      \<and> r = run_query (descriptor_of rt q) f store"
  proof (cases "build_filter rt uid (descriptor_of rt q)")
    case (Inl e)
    then have "list_tasks rt store uid q = Thrown e"
      by (simp add: list_tasks_def p)
    with assms show ?thesis by simp
  next
    case (Inr f)
    then show ?thesis
      using assms by (simp add: list_tasks_def p)
  qed
qed

lemma run_query_fields:
  "lr_total (run_query d f store) = length (filter (matches f) store)"
  "lr_count (run_query d f store) = length (lr_data (run_query d f store))"
  "lr_data (run_query d f store) =
     take (nat (d_limit d)) (drop (nat ((d_page d - 1) * d_limit d))
       (mongo_sort (d_sortBy d) (d_ascending d) (filter (matches f) store)))"
  by (simp_all add: run_query_def Let_def)






lemma set_take_drop_subset: "set (take n (drop k xs)) \<subseteq> set xs"
  using set_take_subset[of n "drop k xs"] set_drop_subset[of k xs] by (rule subset_trans)


section \<open>Total and page size of a listing\<close>


lemmas eval_list =
  list_tasks_def run_query_def parse_list_query_def validate_list_def check_isInt_def check_isIn_def
  check_status_def check_priority_def descriptor_of_def parseInt_or_def truthy_def
  build_filter_def matches_def mongo_sort_def sort_by_def sort_le_def empty_query_def
  demo_runtime_def demo_store_def pending_task_def completed_task_def



lemma build_filter_date_bound:
  assumes "build_filter rt uid (descriptor_of rt q) = Inr f"
    and "truthy (q_dueBefore q) \<noteq> None \<or> truthy (q_dueAfter q) \<noteq> None"
  shows "f_lte f \<noteq> None \<or> f_gte f \<noteq> None"
  using assms
  by (auto simp: build_filter_def descriptor_of_def split: option.splits prod.splits)

lemma matches_dated:
  assumes "f_lte f \<noteq> None \<or> f_gte f \<noteq> None" and "matches f t"
  shows "dueDate t \<noteq> None"
  using assms by (auto simp: matches_def split: option.splits)

lemma matches_without_dates:
  "matches (f\<lparr>f_lte := None, f_gte := None\<rparr>) (t\<lparr>dueDate := d\<rparr>)
     = matches (f\<lparr>f_lte := None, f_gte := None\<rparr>) t"
  by (simp add: matches_def cong: option.case_cong)

lemma build_filter_without_dates:
  assumes "build_filter rt uid (descriptor_of rt q) = Inr f"
  shows "build_filter rt uid (descriptor_of rt (q\<lparr>q_dueBefore := None, q_dueAfter := None\<rparr>))
     = Inr (f\<lparr>f_lte := None, f_gte := None\<rparr>)"
proof -
  let ?d = "descriptor_of rt q"
  let ?e = "descriptor_of rt (q\<lparr>q_dueBefore := None, q_dueAfter := None\<rparr>)"
  have e: "d_status ?e = d_status ?d" "d_priority ?e = d_priority ?d"
    "d_search ?e = d_search ?d" "d_tag ?e = d_tag ?d"
    "d_dueBefore ?e = None" "d_dueAfter ?e = None"
    by (simp_all add: descriptor_of_def truthy_def)
  show ?thesis
  proof (cases "case d_search ?d of None \<Rightarrow> Some None
                                 | Some s \<Rightarrow> map_option Some (regExp_i rt s)")
    case None
    then show ?thesis using assms by (simp add: build_filter_def)
  next
    case (Some m)
    then have "f = \<lparr> f_user = uid, f_status = d_status ?d, f_priority = d_priority ?d,
        f_or = m, f_tags = d_tag ?d, f_lte = f_lte f, f_gte = f_gte f \<rparr>"
      using assms by (auto simp: build_filter_def split: option.splits prod.splits)
    then have "f\<lparr>f_lte := None, f_gte := None\<rparr> =
        \<lparr> f_user = uid, f_status = d_status ?d, f_priority = d_priority ?d,
          f_or = m, f_tags = d_tag ?d, f_lte = None, f_gte = None \<rparr>"
      by (metis task_filter.update_convs(6,7))
    then show ?thesis
      using Some by (simp add: build_filter_def e)
  qed
qed

lemma keep_task_undated:
  assumes "dueDate t = None"
  shows "keep_task rt fl t = keep_task rt (fl\<lparr>tf_dueBefore := None, tf_dueAfter := None\<rparr>) t"
proof -
  have "(case (truthy (tf_dueBefore fl), dueDate t) of
           (Some s, Some x) \<Rightarrow> (case newDate rt s of None \<Rightarrow> False | Some b \<Rightarrow> b < x)
         | _ \<Rightarrow> False) = False"
    "(case (truthy (tf_dueAfter fl), dueDate t) of
           (Some s, Some x) \<Rightarrow> (case newDate rt s of None \<Rightarrow> False | Some a \<Rightarrow> x < a)
         | _ \<Rightarrow> False) = False"
    using assms by (simp_all split: option.splits)
  then show ?thesis
    by (simp add: keep_task_def truthy_def)
qed

section \<open>Date filters and tasks without a due date\<close>

text \<open>
  C10. Let the list route answer a query that has \<^verbatim>\<open>dueBefore\<close> or \<^verbatim>\<open>dueAfter\<close>. No
  returned task lacks a due date, and the whole answer (items, count, total, pagination)
  is the one the route gives when every task without a due date is removed from the
  collection: no task without a due date matches the filter \<open>f\<close>. The same query
  without the two date parameters is answered too, its total counts the matches of \<open>f\<close>
  with the date bounds removed, and that match does not look at the due date. The client
  helper keeps or drops a task without a due date exactly as it does when the two date
  filters are not given.
\<close>

theorem date_filter_drops_undated_tasks:
  assumes r: "list_tasks rt store uid q = TaskList r"
    and p: "truthy (q_dueBefore q) \<noteq> None \<or> truthy (q_dueAfter q) \<noteq> None"
  shows "(\<forall>t \<in> set (lr_data r). dueDate t \<noteq> None)
     \<and> list_tasks rt (filter (\<lambda>t. dueDate t \<noteq> None) store) uid q = TaskList r
     \<and> (\<exists>f r0. build_filter rt uid (descriptor_of rt q) = Inr f
           \<and> lr_total r = length (filter (matches f) store)
           \<and> (\<forall>t. dueDate t = None \<longrightarrow> \<not> matches f t)
           \<and> list_tasks rt store uid (q\<lparr>q_dueBefore := None, q_dueAfter := None\<rparr>) = TaskList r0
           \<and> lr_total r0 = length (filter (matches (f\<lparr>f_lte := None, f_gte := None\<rparr>)) store)
           \<and> (\<forall>t d. matches (f\<lparr>f_lte := None, f_gte := None\<rparr>) (t\<lparr>dueDate := d\<rparr>)
                    = matches (f\<lparr>f_lte := None, f_gte := None\<rparr>) t))
     \<and> (\<forall>fl t. dueDate t = None \<longrightarrow>
           keep_task rt fl t = keep_task rt (fl\<lparr>tf_dueBefore := None, tf_dueAfter := None\<rparr>) t)"
proof -
  let ?d = "descriptor_of rt q"
  let ?qn = "q\<lparr>q_dueBefore := None, q_dueAfter := None\<rparr>"
  have v: "validate_list q = []"
    using r by (rule list_tasks_TaskList(1))
  obtain f where f: "build_filter rt uid ?d = Inr f" and rq: "r = run_query ?d f store"
    using list_tasks_TaskList(2)[OF r] by (elim exE conjE)
  have b: "f_lte f \<noteq> None \<or> f_gte f \<noteq> None"
    using f p by (rule build_filter_date_bound)
  have dated: "\<And>t. matches f t \<Longrightarrow> dueDate t \<noteq> None"
    using b by (rule matches_dated)
  have "set (lr_data r) \<subseteq> set (filter (matches f) store)"
    unfolding rq run_query_fields mongo_sort_def
    using set_take_drop_subset[of _ _ "sort_by _ (filter (matches f) store)"]
    by (simp only: set_sort_by)
  then have c1: "\<forall>t \<in> set (lr_data r). dueDate t \<noteq> None"
  proof (intro ballI)
    fix t assume "set (lr_data r) \<subseteq> set (filter (matches f) store)" "t \<in> set (lr_data r)"
    then have "matches f t" by auto
    then show "dueDate t \<noteq> None" by (rule dated)
  qed
  have "filter (matches f) (filter (\<lambda>t. dueDate t \<noteq> None) store) = filter (matches f) store"
  proof -
    have "\<And>t. (dueDate t \<noteq> None \<and> matches f t) = matches f t"
      using dated by blast
    then show ?thesis
      by (simp add: filter_filter)
  qed
  then have "run_query ?d f (filter (\<lambda>t. dueDate t \<noteq> None) store) = run_query ?d f store"
    by (simp add: run_query_def)
  then have c2: "list_tasks rt (filter (\<lambda>t. dueDate t \<noteq> None) store) uid q = TaskList r"
    using list_tasks_valid[OF v f] rq by simp
  have t1: "lr_total r = length (filter (matches f) store)"
    by (simp add: rq run_query_fields)
  have n: "\<forall>t. dueDate t = None \<longrightarrow> \<not> matches f t"
    using dated by blast
  have v0: "validate_list ?qn = []"
    using v by (simp add: validate_list_def)
  have f0: "build_filter rt uid (descriptor_of rt ?qn) = Inr (f\<lparr>f_lte := None, f_gte := None\<rparr>)"
    using f by (rule build_filter_without_dates)
  have l0: "list_tasks rt store uid ?qn
      = TaskList (run_query (descriptor_of rt ?qn) (f\<lparr>f_lte := None, f_gte := None\<rparr>) store)"
    using v0 f0 by (rule list_tasks_valid)
  have t0: "lr_total (run_query (descriptor_of rt ?qn) (f\<lparr>f_lte := None, f_gte := None\<rparr>) store)
      = length (filter (matches (f\<lparr>f_lte := None, f_gte := None\<rparr>)) store)"
    by (rule run_query_fields(1))
  have m: "\<forall>t d. matches (f\<lparr>f_lte := None, f_gte := None\<rparr>) (t\<lparr>dueDate := d\<rparr>)
                    = matches (f\<lparr>f_lte := None, f_gte := None\<rparr>) t"
    by (simp add: matches_without_dates)
  have c3: "\<exists>f r0. build_filter rt uid (descriptor_of rt q) = Inr f
           \<and> lr_total r = length (filter (matches f) store)
           \<and> (\<forall>t. dueDate t = None \<longrightarrow> \<not> matches f t)
           \<and> list_tasks rt store uid ?qn = TaskList r0
           \<and> lr_total r0 = length (filter (matches (f\<lparr>f_lte := None, f_gte := None\<rparr>)) store)
           \<and> (\<forall>t d. matches (f\<lparr>f_lte := None, f_gte := None\<rparr>) (t\<lparr>dueDate := d\<rparr>)
                    = matches (f\<lparr>f_lte := None, f_gte := None\<rparr>) t)"
    using f t1 n l0 t0 m
    by (intro exI[of _ f] exI[of _ "run_query (descriptor_of rt ?qn) (f\<lparr>f_lte := None, f_gte := None\<rparr>) store"] conjI)
  have c4: "\<forall>fl t. dueDate t = None \<longrightarrow>
           keep_task rt fl t = keep_task rt (fl\<lparr>tf_dueBefore := None, tf_dueAfter := None\<rparr>) t"
  proof (intro allI impI)
    fix fl and t :: task
    assume "dueDate t = None"
    then show "keep_task rt fl t
        = keep_task rt (fl\<lparr>tf_dueBefore := None, tf_dueAfter := None\<rparr>) t"
      by (rule keep_task_undated)
  qed
  show ?thesis
    using c1 c2 c3 c4 by (intro conjI)
qed

text \<open>
  The undated pending task is listed without a date filter and not with
  \<^verbatim>\<open>dueBefore=2030-01-01\<close>; the client helper keeps it under \<^verbatim>\<open>dueBefore: '2020-01-01'\<close>.
\<close>

theorem date_filter_drops_undated_tasks_witness:
  "list_tasks demo_runtime demo_store 7 dueBefore_query =
     TaskList \<lparr> lr_count = 1, lr_total = 1, lr_next = None, lr_prev = None,
                lr_data = [completed_task] \<rparr>
   \<and> dueDate pending_task = None
   \<and> list_tasks demo_runtime [completed_task] 7 dueBefore_query =
     TaskList \<lparr> lr_count = 1, lr_total = 1, lr_next = None, lr_prev = None,
                lr_data = [completed_task] \<rparr>
   \<and> list_tasks demo_runtime demo_store 7 empty_query =
     TaskList \<lparr> lr_count = 2, lr_total = 2, lr_next = None, lr_prev = None,
                lr_data = [completed_task, pending_task] \<rparr>
   \<and> keep_task demo_runtime before2020_filters pending_task
   \<and> filterTasks demo_runtime demo_store before2020_filters = [pending_task]"
proof -
  let ?r = "\<lparr> lr_count = 1, lr_total = 1, lr_next = None, lr_prev = None,
                lr_data = [completed_task] \<rparr>"
  have r: "list_tasks demo_runtime demo_store 7 dueBefore_query = TaskList ?r"
    by (simp add: eval_list dueBefore_query_def)
  have p: "truthy (q_dueBefore dueBefore_query) \<noteq> None
      \<or> truthy (q_dueAfter dueBefore_query) \<noteq> None"
    by (simp add: truthy_def dueBefore_query_def empty_query_def)
  have u: "dueDate pending_task = None"
    by (simp add: pending_task_def)
  have fl: "filter (\<lambda>t. dueDate t \<noteq> None) demo_store = [completed_task]"
    by (simp add: demo_store_def pending_task_def completed_task_def)
  have e: "list_tasks demo_runtime demo_store 7 empty_query =
     TaskList \<lparr> lr_count = 2, lr_total = 2, lr_next = None, lr_prev = None,
                lr_data = [completed_task, pending_task] \<rparr>"
    by (simp add: eval_list)
  have k: "keep_task demo_runtime
      (before2020_filters\<lparr>tf_dueBefore := None, tf_dueAfter := None\<rparr>) pending_task"
    by (simp add: keep_task_def before2020_filters_def truthy_def)
  have c: "filterTasks demo_runtime demo_store before2020_filters = [pending_task]"
    by (simp add: filterTasks_def keep_task_def before2020_filters_def truthy_def
        demo_store_def pending_task_def completed_task_def demo_runtime_def)
  note th = date_filter_drops_undated_tasks[OF r p]
  have "list_tasks demo_runtime (filter (\<lambda>t. dueDate t \<noteq> None) demo_store) 7 dueBefore_query
      = TaskList ?r"
    using th by (elim conjE)
  then have d: "list_tasks demo_runtime [completed_task] 7 dueBefore_query = TaskList ?r"
    by (simp only: fl)
  have c4: "\<forall>fl t. dueDate t = None \<longrightarrow>
      keep_task demo_runtime fl t
        = keep_task demo_runtime (fl\<lparr>tf_dueBefore := None, tf_dueAfter := None\<rparr>) t"
    using th by (elim conjE)
  have "keep_task demo_runtime before2020_filters pending_task
      = keep_task demo_runtime
          (before2020_filters\<lparr>tf_dueBefore := None, tf_dueAfter := None\<rparr>) pending_task"
    by (rule c4[rule_format, OF u])
  then have k': "keep_task demo_runtime before2020_filters pending_task"
    using k by (simp only:)
  show ?thesis
    using r u d e k' c by (intro conjI)
qed

section \<open>Lemmas about the statistics\<close>

lemma status_UNIV: "(UNIV :: status set) = {Pending, InProgress, Completed, Cancelled}"
proof -
  have "\<And>s :: status. s \<in> {Pending, InProgress, Completed, Cancelled}"
    by (case_tac s) simp_all
  then show ?thesis by blast
qed

lemma count_status_sum:
  "count_status Pending ts + count_status InProgress ts
     + count_status Completed ts + count_status Cancelled ts = length ts"
proof (induction ts)
  case Nil
  then show ?case by (simp add: count_status_def)
next
  case (Cons t ts)
  then show ?case
    by (cases "status t") (simp_all add: count_status_def)
qed

lemma count_status_absent: "s \<notin> set (map status ts) \<Longrightarrow> count_status s ts = 0"
  by (induction ts) (auto simp: count_status_def)

lemma fold_add_stat:
  assumes "distinct ss"
  shows "st_total (fold add_stat (map (\<lambda>s. (s, g s)) ss) r) = st_total r + sum_list (map g ss)
     \<and> st_pending (fold add_stat (map (\<lambda>s. (s, g s)) ss) r)
         = (if Pending \<in> set ss then g Pending else st_pending r)
     \<and> st_in_progress (fold add_stat (map (\<lambda>s. (s, g s)) ss) r)
         = (if InProgress \<in> set ss then g InProgress else st_in_progress r)
     \<and> st_completed (fold add_stat (map (\<lambda>s. (s, g s)) ss) r)
         = (if Completed \<in> set ss then g Completed else st_completed r)
     \<and> st_cancelled (fold add_stat (map (\<lambda>s. (s, g s)) ss) r)
         = (if Cancelled \<in> set ss then g Cancelled else st_cancelled r)"
  using assms
proof (induction ss arbitrary: r)
  case Nil
  then show ?case by simp
next
  case (Cons s ss)
  have d: "distinct ss" "s \<notin> set ss"
    using Cons.prems by simp_all
  note ih = Cons.IH[OF d(1), of "add_stat (s, g s) r"]
  show ?case
    using ih d(2) by (cases s) (simp_all add: add_stat_def set_bucket_def)
qed

lemma sum_list_status:
  assumes "distinct ss" and "\<And>s. s \<notin> set ss \<Longrightarrow> g s = (0::nat)"
  shows "sum_list (map g ss) = g Pending + g InProgress + g Completed + g Cancelled"
proof -
  have "sum_list (map g ss) = sum g (set ss)"
    using assms(1) by (rule sum_list_distinct_conv_sum_set)
  also have "\<dots> = sum g UNIV"
  proof (rule sum.mono_neutral_left)
    show "finite (UNIV :: status set)"
      by (simp add: status_UNIV)
    show "set ss \<subseteq> UNIV"
      by simp
    show "\<forall>i \<in> UNIV - set ss. g i = 0"
      using assms(2) by simp
  qed
  also have "\<dots> = g Pending + g InProgress + g Completed + g Cancelled"
    by (simp add: status_UNIV)
  finally show ?thesis .
qed

lemma getUserStats_counts:
  "st_total (getUserStats store uid) = length (filter (\<lambda>t. user t = uid) store)"
  "st_pending (getUserStats store uid) = count_status Pending (filter (\<lambda>t. user t = uid) store)"
  "st_in_progress (getUserStats store uid)
     = count_status InProgress (filter (\<lambda>t. user t = uid) store)"
  "st_completed (getUserStats store uid)
     = count_status Completed (filter (\<lambda>t. user t = uid) store)"
  "st_cancelled (getUserStats store uid)
     = count_status Cancelled (filter (\<lambda>t. user t = uid) store)"
proof -
  let ?mine = "filter (\<lambda>t. user t = uid) store"
  let ?ss = "remdups (map status ?mine)"
  let ?g = "\<lambda>s. count_status s ?mine"
  have d: "distinct ?ss" by simp
  have z: "\<And>s. s \<notin> set ?ss \<Longrightarrow> ?g s = 0"
    using count_status_absent[of _ ?mine] by simp
  have g: "getUserStats store uid = fold add_stat (map (\<lambda>s. (s, ?g s)) ?ss) empty_stats"
    by (simp add: getUserStats_def aggregate_status_def Let_def)
  note f = fold_add_stat[OF d, of ?g empty_stats]
  have "st_total (getUserStats store uid) = sum_list (map ?g ?ss)"
    using f by (simp add: g empty_stats_def)
  also have "\<dots> = ?g Pending + ?g InProgress + ?g Completed + ?g Cancelled"
    using d z by (rule sum_list_status)
  also have "\<dots> = length ?mine"
    by (rule count_status_sum)
  finally show "st_total (getUserStats store uid) = length ?mine" .
  show "st_pending (getUserStats store uid) = ?g Pending"
    using f z[of Pending] by (auto simp: g empty_stats_def)
  show "st_in_progress (getUserStats store uid) = ?g InProgress"
    using f z[of InProgress] by (auto simp: g empty_stats_def)
  show "st_completed (getUserStats store uid) = ?g Completed"
    using f z[of Completed] by (auto simp: g empty_stats_def)
  show "st_cancelled (getUserStats store uid) = ?g Cancelled"
    using f z[of Cancelled] by (auto simp: g empty_stats_def)
qed

lemma length_filter_conj_le: "length (filter (\<lambda>t. P t \<and> Q t) xs) \<le> length (filter P xs)"
  by (induction xs) auto

lemma overdue_le_mine:
  "length (filter (overdue_match now uid) store) \<le> length (filter (\<lambda>t. user t = uid) store)"
  unfolding overdue_match_def by (rule length_filter_conj_le)

lemma dueToday_le_mine:
  "length (filter (dueToday_match tz today uid) store)
     \<le> length (filter (\<lambda>t. user t = uid) store)"
  unfolding dueToday_match_def Let_def by (rule length_filter_conj_le)

section \<open>Statistics: counts and clock readings\<close>

text \<open>
  C3, as stated, fails in its last part: one call reads the clock twice. Take a pending
  task due one millisecond before midnight, a first reading two milliseconds before that
  midnight and a second reading one millisecond after it. The call reports the task as
  neither overdue nor due today. With the first reading alone it would be due today; with
  the second alone it would be overdue.
\<close>

theorem stats_two_clock_readings:
  "st_overdue (stats_overview 0 1700006399998 1700006400001 [due_before_midnight_task] 7) = 0
   \<and> st_dueToday (stats_overview 0 1700006399998 1700006400001 [due_before_midnight_task] 7) = 0
   \<and> st_dueToday (stats_overview 0 1700006399998 1700006399998 [due_before_midnight_task] 7) = 1
   \<and> st_overdue (stats_overview 0 1700006400001 1700006400001 [due_before_midnight_task] 7) = 1"
  by (simp add: stats_overview_def overdue_match_def dueToday_match_def setHours0_def
      day_ms_def open_task_def due_before_midnight_task_def Let_def)

text \<open>
  C3, amended. For every owner the four status counts are the numbers of the owner's tasks
  with that status (so 0 for a status without tasks), their sum is \<^verbatim>\<open>total\<close>, which is the
  number of the owner's tasks, and \<^verbatim>\<open>overdue\<close> and \<^verbatim>\<open>dueToday\<close> are each at most \<^verbatim>\<open>total\<close>.
  \<^verbatim>\<open>overdue\<close> compares the due dates with the clock reading \<open>now1\<close> taken for the overdue
  query; the day window of \<^verbatim>\<open>dueToday\<close> comes from a second reading \<open>now2\<close> taken
  afterwards.
\<close>

theorem stats_overview_counts:
  "st_pending (stats_overview tz now1 now2 store uid)
       = count_status Pending (filter (\<lambda>t. user t = uid) store)
   \<and> st_in_progress (stats_overview tz now1 now2 store uid)
       = count_status InProgress (filter (\<lambda>t. user t = uid) store)
   \<and> st_completed (stats_overview tz now1 now2 store uid)
       = count_status Completed (filter (\<lambda>t. user t = uid) store)
   \<and> st_cancelled (stats_overview tz now1 now2 store uid)
       = count_status Cancelled (filter (\<lambda>t. user t = uid) store)
   \<and> st_total (stats_overview tz now1 now2 store uid)
       = length (filter (\<lambda>t. user t = uid) store)
   \<and> st_pending (stats_overview tz now1 now2 store uid)
       + st_in_progress (stats_overview tz now1 now2 store uid)
       + st_completed (stats_overview tz now1 now2 store uid)
       + st_cancelled (stats_overview tz now1 now2 store uid)
       = st_total (stats_overview tz now1 now2 store uid)
   \<and> st_overdue (stats_overview tz now1 now2 store uid)
       = length (filter (overdue_match now1 uid) store)
   \<and> st_dueToday (stats_overview tz now1 now2 store uid)
       = length (filter (dueToday_match tz now2 uid) store)
   \<and> st_overdue (stats_overview tz now1 now2 store uid)
       \<le> st_total (stats_overview tz now1 now2 store uid)
   \<and> st_dueToday (stats_overview tz now1 now2 store uid)
       \<le> st_total (stats_overview tz now1 now2 store uid)"
proof -
  let ?s = "stats_overview tz now1 now2 store uid"
  let ?mine = "filter (\<lambda>t. user t = uid) store"
  have b: "st_pending ?s = count_status Pending ?mine"
    "st_in_progress ?s = count_status InProgress ?mine"
    "st_completed ?s = count_status Completed ?mine"
    "st_cancelled ?s = count_status Cancelled ?mine"
    "st_total ?s = length ?mine"
    by (simp_all add: stats_overview_def Let_def getUserStats_counts)
  have o: "st_overdue ?s = length (filter (overdue_match now1 uid) store)"
    "st_dueToday ?s = length (filter (dueToday_match tz now2 uid) store)"
    by (simp_all add: stats_overview_def Let_def)
  have sum: "st_pending ?s + st_in_progress ?s + st_completed ?s + st_cancelled ?s = st_total ?s"
    unfolding b by (rule count_status_sum)
  have le: "st_overdue ?s \<le> st_total ?s" "st_dueToday ?s \<le> st_total ?s"
    unfolding o b by (rule overdue_le_mine, rule dueToday_le_mine)
  show ?thesis
    using b o sum le by (intro conjI)
qed

section \<open>Lemmas about the validators of the list route\<close>

lemma check_isIn_Nil_iff:
  "(check_isIn allowed name msg v = []) = (case v of None \<Rightarrow> True | Some s \<Rightarrow> s \<in> set allowed)"
  by (simp add: check_isIn_def split: option.splits)

lemma check_isInt_Nil_iff:
  "(check_isInt lo hi name msg v = []) = (case v of None \<Rightarrow> True | Some s \<Rightarrow> isInt lo hi s)"
  by (simp add: check_isInt_def split: option.splits)

lemma check_status_Nil_iff:
  "(check_status v = []) =
     (case v of None \<Rightarrow> True
      | Some s \<Rightarrow> s \<in> set [''pending'', ''in-progress'', ''completed'', ''cancelled''])"
  by (simp add: check_status_def split: option.splits)

lemma check_priority_Nil_iff:
  "(check_priority v = []) =
     (case v of None \<Rightarrow> True | Some s \<Rightarrow> s \<in> set [''low'', ''medium'', ''high'', ''urgent''])"
  by (simp add: check_priority_def split: option.splits)

lemma parse_list_query_fails_iff:
  "(\<exists>errors. parse_list_query rt q = Inl errors) =
     (\<not> (case q_page q of None \<Rightarrow> True | Some s \<Rightarrow> isInt (Some 1) None s)
      \<or> \<not> (case q_limit q of None \<Rightarrow> True | Some s \<Rightarrow> isInt (Some 1) (Some 100) s)
      \<or> \<not> (case q_status q of None \<Rightarrow> True
             | Some s \<Rightarrow> s \<in> set [''pending'', ''in-progress'', ''completed'', ''cancelled''])
      \<or> \<not> (case q_priority q of None \<Rightarrow> True
             | Some s \<Rightarrow> s \<in> set [''low'', ''medium'', ''high'', ''urgent''])
      \<or> \<not> (case q_sortBy q of None \<Rightarrow> True
             | Some s \<Rightarrow> s \<in> set [''createdAt'', ''updatedAt'', ''dueDate'', ''title'', ''priority''])
      \<or> \<not> (case q_sortOrder q of None \<Rightarrow> True | Some s \<Rightarrow> s \<in> set [''asc'', ''desc'']))"
proof -
  have "(\<exists>errors. parse_list_query rt q = Inl errors) = (validate_list q \<noteq> [])"
    by (cases "validate_list q = []") (simp_all add: parse_list_query_def)
  also have "\<dots> =
     (\<not> (check_isInt (Some 1) None ''page'' ''Page must be a positive integer'' (q_page q) = []
         \<and> check_isInt (Some 1) (Some 100) ''limit'' ''Limit must be between 1 and 100''
              (q_limit q) = []
         \<and> check_status (q_status q) = []
         \<and> check_priority (q_priority q) = []
         \<and> check_isIn [''createdAt'', ''updatedAt'', ''dueDate'', ''title'', ''priority'']
              ''sortBy'' ''Invalid sort field'' (q_sortBy q) = []
         \<and> check_isIn [''asc'', ''desc''] ''sortOrder'' ''Sort order must be asc or desc''
              (q_sortOrder q) = []))"
    by (simp add: validate_list_def)
  finally show ?thesis
    unfolding check_isIn_Nil_iff check_isInt_Nil_iff check_status_Nil_iff check_priority_Nil_iff
    by blast
qed

lemma parse_list_query_defaults:
  assumes "validate_list q = []"
  shows "\<exists>d. parse_list_query rt q = Inr d
     \<and> (q_page q = None \<longrightarrow> d_page d = 1)
     \<and> (q_limit q = None \<longrightarrow> d_limit d = 10)
     \<and> (q_sortBy q = None \<longrightarrow> d_sortBy d = ''createdAt'')
     \<and> (q_sortOrder q = None \<longrightarrow> \<not> d_ascending d)"
  using assms
  by (simp add: parse_list_query_def descriptor_of_def parseInt_or_def truthy_def)

section \<open>Parsing the query of the list route\<close>

text \<open>
  C6. A date parameter that does not parse should fail the parsing with a list of field
  messages, as an invalid enum value or an out-of-range page or limit does
  (\<open>parse_list_query_fails_iff\<close>). The list route has no validator for \<^verbatim>\<open>dueBefore\<close> and
  \<^verbatim>\<open>dueAfter\<close>, unlike the create and update routes for \<^verbatim>\<open>dueDate\<close>. For
  \<^verbatim>\<open>dueBefore=not-a-date\<close> validation reports nothing, the handler goes on with an
  \<^verbatim>\<open>Invalid Date\<close> under the defaults page 1, limit 10, createdAt, descending, and the
  query throws a cast error.
\<close>

theorem unparseable_date_not_rejected:
  "validate_list bad_date_query = []
   \<and> parse_list_query demo_runtime bad_date_query =
       Inr \<lparr> d_page = 1, d_limit = 10, d_status = None, d_priority = None, d_search = None,
             d_tag = None, d_dueBefore = Some None, d_dueAfter = None,
             d_sortBy = ''createdAt'', d_ascending = False \<rparr>
   \<and> list_tasks demo_runtime demo_store 7 bad_date_query = Thrown MongooseCastError"
  by (simp add: list_tasks_def parse_list_query_def validate_list_def check_isInt_def
      check_isIn_def check_status_def check_priority_def descriptor_of_def parseInt_or_def
      truthy_def build_filter_def bad_date_query_def empty_query_def demo_runtime_def)

section \<open>Lemmas about search patterns\<close>

lemma dot_match_here_literal:
  assumes "\<not> list_ex regex_special p"
  shows "dot_match_here p subject = startsWith (toLowerCase subject) (toLowerCase p)"
  using assms
proof (induction p subject rule: dot_match_here.induct)
  case (1 subject)
  then show ?case by (simp add: startsWith_def toLowerCase_def)
next
  case (2 p ps)
  then show ?case by (simp add: startsWith_def toLowerCase_def)
next
  case (3 p ps c cs)
  then have "p \<noteq> CHR ''.''"
    by (auto simp: regex_special_def)
  then show ?case
    using 3 by (auto simp: startsWith_def toLowerCase_def dot_char_def)
qed

lemma dot_search_literal:
  assumes "\<not> list_ex regex_special p"
  shows "dot_search p subject = str_includes (toLowerCase subject) (toLowerCase p)"
proof (induction subject)
  case Nil
  then show ?case
    using dot_match_here_literal[OF assms, of "[]"]
    by (cases p) (simp_all add: toLowerCase_def startsWith_def)
next
  case (Cons c cs)
  then show ?case
    using dot_match_here_literal[OF assms, of "c # cs"]
    by (simp add: toLowerCase_def)
qed

lemma literal_search_is_substring:
  assumes "\<not> list_ex regex_special p"
  shows "dot_regExp_i p = Some (\<lambda>subject. str_includes (toLowerCase subject) (toLowerCase p))"
proof -
  have "\<not> list_ex (\<lambda>c. regex_special c \<and> c \<noteq> CHR ''.'') p"
    using assms by (auto simp: list_ex_iff)
  then show ?thesis
    by (simp add: dot_regExp_i_def dot_search_literal[OF assms] fun_eq_iff)
qed

lemmas eval_search =
  list_tasks_def run_query_def parse_list_query_def validate_list_def check_isInt_def
  check_isIn_def check_status_def check_priority_def descriptor_of_def parseInt_or_def
  truthy_def build_filter_def matches_def mongo_sort_def sort_by_def sort_le_def
  empty_query_def demo_runtime_def dot_regExp_i_def regex_special_def dot_char_def
  toLower_char_def

lemma search_scenario:
  "list_tasks demo_runtime [completed_task, urgentfix_task] 7
     (empty_query\<lparr>q_search := Some ''urgent''\<rparr>) =
     TaskList \<lparr> lr_count = 2, lr_total = 2, lr_next = None, lr_prev = None,
                lr_data = [urgentfix_task, completed_task] \<rparr>"
  "list_tasks demo_runtime [completed_task, urgentfix_task] 7
     (empty_query\<lparr>q_tag := Some ''urgent''\<rparr>) =
     TaskList \<lparr> lr_count = 0, lr_total = 0, lr_next = None, lr_prev = None, lr_data = [] \<rparr>"
  by (simp_all add: eval_search completed_task_def urgentfix_task_def)

section \<open>Search terms\<close>

text \<open>
  C8. A search term should match exactly the tasks that contain it, without regard to
  case, in the title, the description or a tag, as the client helper does. The list route
  hands the term to \<^verbatim>\<open>$regex\<close> and \<^verbatim>\<open>new RegExp\<close> unescaped. The term \<^verbatim>\<open>.\<close> is contained
  nowhere in the task ``write report'', and the client helper drops the task, but the
  route returns it. For terms without special characters the route agrees with the
  substring test (\<open>literal_search_is_substring\<close>), and the two cases of the scenario hold
  (\<open>search_scenario\<close>).
\<close>

theorem search_term_read_as_pattern:
  "list_tasks demo_runtime [pending_task] 7 dot_query =
     TaskList \<lparr> lr_count = 1, lr_total = 1, lr_next = None, lr_prev = None,
                lr_data = [pending_task] \<rparr>
   \<and> \<not> search_hit ''.'' pending_task
   \<and> filterTasks demo_runtime [pending_task] dot_filters = []"
proof -
  have a: "list_tasks demo_runtime [pending_task] 7 dot_query =
     TaskList \<lparr> lr_count = 1, lr_total = 1, lr_next = None, lr_prev = None,
                lr_data = [pending_task] \<rparr>"
    by (simp add: eval_search dot_query_def pending_task_def)
  have b: "\<not> search_hit ''.'' pending_task"
    by (simp add: search_hit_def pending_task_def toLowerCase_def toLower_char_def
        startsWith_def)
  have c: "filterTasks demo_runtime [pending_task] dot_filters = []"
    using b by (simp add: filterTasks_def keep_task_def dot_filters_def truthy_def)
  show ?thesis
    using a b c by (intro conjI)
qed

end
